theory Spec2Isabelle
  imports Main "HOL-Library.Word"
begin

unbundle bit_operations_syntax

section \<open>Data model\<close>

text \<open>
  The two source files are \<^verbatim>\<open>src/src/omap_dumb.c\<close> (buffer objects) and
  \<^verbatim>\<open>src/src/omap_dri2.c\<close> (swap scheduling). Pointers are addresses (\<open>nat\<close>) into
  explicit stores, a null pointer is \<open>None\<close>. A C \<^verbatim>\<open>int\<close> counter is an \<open>int\<close>;
  an increment or decrement that would leave the 32-bit range is undefined behaviour in C
  and is the fault \<open>SignedOverflow\<close> here. A failed \<^verbatim>\<open>assert\<close> is the fault
  \<open>AssertFailed\<close>, a dereference of a null pointer \<open>NullDeref\<close>, of a pointer that is
  not live in its store \<open>BadPointer\<close>. Unsigned fixed-width values are words.
  Calls into the kernel and the X server are appended to a trace; the value such a call
  returns is an argument of the model (for \<^verbatim>\<open>omap_dri2.c\<close>, a field of \<open>env\<close>).
\<close>

type_synonym u8 = "8 word"
type_synonym u16 = "16 word"
type_synonym u32 = "32 word"

type_synonym bo_ptr = nat
type_synonym pix_ptr = nat
type_synonym buf_ptr = nat
type_synonym cmd_ptr = nat
type_synonym xid = nat

datatype fault = AssertFailed | NullDeref | BadPointer | SignedOverflow

definition INT_MAX :: int where
  "INT_MAX = 2147483647"

definition INT_MIN :: int where
  "INT_MIN = - 2147483648"

text \<open>\<^verbatim>\<open>x++\<close> and \<^verbatim>\<open>x--\<close> on a C \<^verbatim>\<open>int\<close>.\<close>

definition c_inc :: "int \<Rightarrow> fault + int" where
  "c_inc n = (if n = INT_MAX then Inl SignedOverflow else Inr (n + 1))"

definition c_dec :: "int \<Rightarrow> fault + int" where
  "c_dec n = (if n = INT_MIN then Inl SignedOverflow else Inr (n - 1))"

text \<open>\<^verbatim>\<open>struct omap_bo\<close> (omap_dumb.c, lines 43-57). \<open>exynos_handle\<close> is
  \<^verbatim>\<open>exynos_bo->handle\<close>; \<open>dirty\<close> only ever holds \<^verbatim>\<open>TRUE\<close> or \<^verbatim>\<open>FALSE\<close>.\<close>

record omap_bo =
  exynos_handle :: u32
  fb_id :: u32
  width :: u32
  height :: u32
  pitch :: u32
  depth :: u8
  bpp :: u8
  pixel_format :: u32
  refcnt :: int
  acquired_exclusive :: int
  acquire_cnt :: int
  dirty :: bool

text \<open>The X server's \<^verbatim>\<open>DrawableRec\<close>, as far as the code reads it. \<open>draw_pixmap\<close> is the
  pixmap \<^verbatim>\<open>draw2pix\<close> yields for the drawable (for a window, its window pixmap).\<close>

datatype drawable_class = DRAWABLE_WINDOW | DRAWABLE_PIXMAP | UNDRAWABLE_WINDOW

record drawable =
  draw_type :: drawable_class
  draw_xid :: xid
  draw_x :: int
  draw_y :: int
  draw_width :: u16
  draw_height :: u16
  draw_pixmap :: pix_ptr

text \<open>A pixmap with its driver private (\<^verbatim>\<open>exaGetPixmapDriverPrivate(p)->bo\<close> is \<open>pix_bo\<close>).\<close>

record pixmap =
  pix_refcnt :: int
  pix_bo :: "bo_ptr option"
  pix_serialNumber :: nat

text \<open>\<^verbatim>\<open>OMAPDRI2BufferRec\<close> (omap_dri2.c, lines 44-71).\<close>

record dri2buf =
  attachment :: u32
  pPixmap :: pix_ptr
  previous_canflip :: int

text \<open>Modelled from the spec: the values of \<^verbatim>\<open>cmd->type\<close> come from the DRI2 header,
  which is not in src; \<open>DRI2_TYPE_UNSET\<close> is the 0 that \<^verbatim>\<open>calloc\<close> leaves.\<close>

datatype swap_type =
  DRI2_TYPE_UNSET | DRI2_EXCHANGE_COMPLETE | DRI2_BLIT_COMPLETE | DRI2_FLIP_COMPLETE

text \<open>\<^verbatim>\<open>struct _OMAPDRISwapCmd\<close> (omap_dri2.c, lines 303-320).\<close>

record OMAPDRISwapCmd =
  cmd_type :: swap_type
  client :: nat
  draw_id :: xid
  pDstPixmap :: pix_ptr
  pSrcPixmap :: pix_ptr
  func :: nat
  swapCount :: int
  flags :: u32
  cmd_x :: int
  cmd_y :: int
  data :: nat

definition OMAP_SWAP_FAKE_FLIP :: u32 where
  "OMAP_SWAP_FAKE_FLIP = push_bit 0 1"

definition OMAP_SWAP_FAIL :: u32 where
  "OMAP_SWAP_FAIL = push_bit 1 1"

text \<open>Modelled from the spec: one slot of the scanout registry (\<^verbatim>\<open>pOMAP->scanouts[i]\<close>);
  its declaration is not in src. The code reads and writes \<^verbatim>\<open>bo\<close> and \<^verbatim>\<open>valid\<close>; \<open>sc_x\<close>
  and \<open>sc_y\<close> stand for the spec's current-position metadata.\<close>

record scanout =
  sc_bo :: "bo_ptr option"
  sc_valid :: bool
  sc_x :: int
  sc_y :: int

datatype draw_ref = DrawPtr drawable | PixmapDrawable pix_ptr

datatype acquire_flag = DRM_EXYNOS_GEM_CPU_ACQUIRE_SHARED | DRM_EXYNOS_GEM_CPU_ACQUIRE_EXCLUSIVE

datatype event =
    Ev_exynos_bo_create u32
  | Ev_exynos_bo_destroy u32
  | Ev_drmModeAddFB u32 u32 u8 u8 u32 u32
  | Ev_drmModeAddFB2 u32 u32 u32 u32 u32
  | Ev_drmModeRmFB u32
  | Ev_CPU_ACQUIRE u32 acquire_flag
  | Ev_CPU_RELEASE u32
  | Ev_DRI2SwapComplete nat drawable swap_type nat nat
  | Ev_OMAPPixmapExchange pix_ptr pix_ptr
  | Ev_DestroyPixmap pix_ptr
  | Ev_set_flip_mode
  | Ev_set_blit_mode
  | Ev_page_flip drawable u32 cmd_ptr
  | Ev_CopyArea draw_ref draw_ref u16 u16
  | Ev_scanout_set int int "bo_ptr option"

text \<open>The driver's state: the stores behind the pointers, the fields of \<^verbatim>\<open>OMAPRec\<close> the
  code uses (\<^verbatim>\<open>scanouts\<close>, \<^verbatim>\<open>scanout\<close>, \<^verbatim>\<open>has_resized\<close>, \<^verbatim>\<open>pending_flips\<close>), the
  server's table of drawables that \<^verbatim>\<open>dixLookupDrawable\<close> reads, and the trace.\<close>

record omap_state =
  bos :: "bo_ptr \<rightharpoonup> omap_bo"
  pixmaps :: "pix_ptr \<rightharpoonup> pixmap"
  bufs :: "buf_ptr \<rightharpoonup> dri2buf"
  cmds :: "cmd_ptr \<rightharpoonup> OMAPDRISwapCmd"
  drawables :: "xid \<rightharpoonup> drawable"
  scanouts :: "scanout list"
  scanout :: "bo_ptr option"
  has_resized :: bool
  pending_flips :: int
  trace :: "event list"

definition log_ev :: "omap_state \<Rightarrow> event \<Rightarrow> omap_state" where
  "log_ev st e = st\<lparr>trace := trace st @ [e]\<rparr>"

section \<open>Buffer objects (omap\_dumb.c)\<close>

text \<open>\<^verbatim>\<open>omap_bo_new\<close> (lines 104-190). \<open>calloc_res\<close> is the address \<^verbatim>\<open>calloc\<close> returns,
  \<open>create_res\<close> the handle of the object \<^verbatim>\<open>exynos_bo_create\<close> returns, \<open>addfb_res\<close> the
  return value of \<^verbatim>\<open>drmModeAddFB\<close> or \<^verbatim>\<open>drmModeAddFB2\<close> and the framebuffer id it
  stores. The structure enters the store only where the function returns it: on every
  other path it is freed before the return. The arithmetic is that of \<^verbatim>\<open>uint32_t\<close>.\<close>

definition omap_bo_new ::
  "omap_state \<Rightarrow> bo_ptr option \<Rightarrow> u32 option \<Rightarrow> int \<times> u32 \<Rightarrow>
   u32 \<Rightarrow> u32 \<Rightarrow> u8 \<Rightarrow> u8 \<Rightarrow> u32 \<Rightarrow> bo_ptr option \<times> omap_state" where
  "omap_bo_new st calloc_res create_res addfb_res w h d b fmt =
     (case calloc_res of
        None \<Rightarrow> (None, st)
      | Some new_buf \<Rightarrow>
          let p = ((((w * ucast b + 7) div 8) + 63) div 64) * 64;
              sz = h * p;
              st1 = log_ev st (Ev_exynos_bo_create sz)
          in (case create_res of
                None \<Rightarrow> (None, st1)
              | Some hdl \<Rightarrow>
                  let st2 = log_ev st1
                        (if d \<noteq> 0 then Ev_drmModeAddFB w h d b p hdl
                         else Ev_drmModeAddFB2 w h fmt hdl p)
                  in if fst addfb_res < 0
                     then (None, log_ev st2 (Ev_exynos_bo_destroy hdl))
                     else (Some new_buf,
                           st2\<lparr>bos := (bos st2)(new_buf \<mapsto>
                             \<lparr>exynos_handle = hdl, fb_id = snd addfb_res, width = w,
                              height = h, pitch = p, depth = d, bpp = b,
                              pixel_format = fmt, refcnt = 1, acquired_exclusive = 0,
                              acquire_cnt = 0, dirty = True\<rparr>)\<rparr>)))"

definition omap_bo_new_with_depth ::
  "omap_state \<Rightarrow> bo_ptr option \<Rightarrow> u32 option \<Rightarrow> int \<times> u32 \<Rightarrow>
   u32 \<Rightarrow> u32 \<Rightarrow> u8 \<Rightarrow> u8 \<Rightarrow> bo_ptr option \<times> omap_state" where
  "omap_bo_new_with_depth st calloc_res create_res addfb_res w h d b =
     omap_bo_new st calloc_res create_res addfb_res w h d b 0"

definition omap_bo_new_with_format ::
  "omap_state \<Rightarrow> bo_ptr option \<Rightarrow> u32 option \<Rightarrow> int \<times> u32 \<Rightarrow>
   u32 \<Rightarrow> u32 \<Rightarrow> u32 \<Rightarrow> u8 \<Rightarrow> bo_ptr option \<times> omap_state" where
  "omap_bo_new_with_format st calloc_res create_res addfb_res w h fmt b =
     omap_bo_new st calloc_res create_res addfb_res w h 0 b fmt"

text \<open>\<^verbatim>\<open>omap_bo_del\<close> (lines 204-226); \<open>rmfb_res\<close> is what \<^verbatim>\<open>drmModeRmFB\<close> returns.\<close>

definition omap_bo_del :: "omap_state \<Rightarrow> bo_ptr option \<Rightarrow> int \<Rightarrow> fault + omap_state" where
  "omap_bo_del st bo rmfb_res =
     (case bo of
        None \<Rightarrow> Inr st
      | Some p \<Rightarrow>
          (case bos st p of
             None \<Rightarrow> Inl BadPointer
           | Some b \<Rightarrow>
               let st1 = log_ev st (Ev_drmModeRmFB (fb_id b))
               in if rmfb_res \<noteq> 0 then Inl AssertFailed
                  else Inr ((log_ev st1 (Ev_exynos_bo_destroy (exynos_handle b)))
                              \<lparr>bos := (bos st)(p := None)\<rparr>)))"

text \<open>\<^verbatim>\<open>omap_bo_unreference\<close> (lines 228-236).\<close>

definition omap_bo_unreference :: "omap_state \<Rightarrow> bo_ptr option \<Rightarrow> int \<Rightarrow> fault + omap_state" where
  "omap_bo_unreference st bo rmfb_res =
     (case bo of
        None \<Rightarrow> Inr st
      | Some p \<Rightarrow>
          (case bos st p of
             None \<Rightarrow> Inl BadPointer
           | Some b \<Rightarrow>
               if \<not> refcnt b > 0 then Inl AssertFailed
               else
                 let st1 = st\<lparr>bos := (bos st)(p \<mapsto> b\<lparr>refcnt := refcnt b - 1\<rparr>)\<rparr>
                 in if refcnt b - 1 = 0 then omap_bo_del st1 (Some p) rmfb_res
                    else Inr st1))"

text \<open>\<^verbatim>\<open>omap_bo_reference\<close> (lines 238-242): no null check before the dereference.\<close>

definition omap_bo_reference :: "omap_state \<Rightarrow> bo_ptr option \<Rightarrow> fault + omap_state" where
  "omap_bo_reference st bo =
     (case bo of
        None \<Rightarrow> Inl NullDeref
      | Some p \<Rightarrow>
          (case bos st p of
             None \<Rightarrow> Inl BadPointer
           | Some b \<Rightarrow>
               if \<not> refcnt b > 0 then Inl AssertFailed
               else (case c_inc (refcnt b) of
                       Inl e \<Rightarrow> Inl e
                     | Inr n \<Rightarrow> Inr (st\<lparr>bos := (bos st)(p \<mapsto> b\<lparr>refcnt := n\<rparr>)\<rparr>))))"

text \<open>The accessors (lines 272-306).\<close>

definition omap_bo_width :: "omap_bo \<Rightarrow> u32" where
  "omap_bo_width bo = width bo"

definition omap_bo_height :: "omap_bo \<Rightarrow> u32" where
  "omap_bo_height bo = height bo"

definition omap_bo_fb :: "omap_bo \<Rightarrow> u32" where
  "omap_bo_fb bo = fb_id bo"

text \<open>Modelled from the spec: \<^verbatim>\<open>enum omap_gem_op\<close> is declared in a header that is not in
  src; the spec's modes are read and write, and the code tests the write bit with
  \<^verbatim>\<open>op & OMAP_GEM_WRITE\<close>. The bit is 0x02 here.\<close>

definition OMAP_GEM_READ :: u32 where
  "OMAP_GEM_READ = 1"

definition OMAP_GEM_WRITE :: u32 where
  "OMAP_GEM_WRITE = 2"

text \<open>\<^verbatim>\<open>omap_bo_cpu_prep\<close> (lines 329-360); \<open>ioctl_res\<close> is what \<^verbatim>\<open>drmIoctl\<close> returns if
  it is called. The result is the returned \<^verbatim>\<open>int\<close> and the state.\<close>

definition omap_bo_cpu_prep ::
  "omap_state \<Rightarrow> bo_ptr \<Rightarrow> u32 \<Rightarrow> int \<Rightarrow> fault + (int \<times> omap_state)" where
  "omap_bo_cpu_prep st p op ioctl_res =
     (case bos st p of
        None \<Rightarrow> Inl BadPointer
      | Some b \<Rightarrow>
          if acquire_cnt b \<noteq> 0 then
            (if op AND OMAP_GEM_WRITE \<noteq> 0 \<and> acquired_exclusive b = 0 then Inr (1, st)
             else (case c_inc (acquire_cnt b) of
                     Inl e \<Rightarrow> Inl e
                   | Inr n \<Rightarrow> Inr (0, st\<lparr>bos := (bos st)(p \<mapsto> b\<lparr>acquire_cnt := n\<rparr>)\<rparr>)))
          else
            let st1 = log_ev st (Ev_CPU_ACQUIRE (exynos_handle b)
                        (if op AND OMAP_GEM_WRITE \<noteq> 0
                         then DRM_EXYNOS_GEM_CPU_ACQUIRE_EXCLUSIVE
                         else DRM_EXYNOS_GEM_CPU_ACQUIRE_SHARED))
            in if ioctl_res \<noteq> 0 then Inr (ioctl_res, st1)
               else
                 (case c_inc (acquire_cnt b) of
                    Inl e \<Rightarrow> Inl e
                  | Inr n \<Rightarrow>
                      let excl = uint (op AND OMAP_GEM_WRITE)
                      in Inr (ioctl_res,
                              st1\<lparr>bos := (bos st1)(p \<mapsto>
                                b\<lparr>acquired_exclusive := excl, acquire_cnt := n,
                                  dirty := (if excl \<noteq> 0 then True else dirty b)\<rparr>)\<rparr>)))"

text \<open>\<^verbatim>\<open>omap_bo_cpu_fini\<close> (lines 362-380); the \<^verbatim>\<open>op\<close> argument is not read.\<close>

definition omap_bo_cpu_fini ::
  "omap_state \<Rightarrow> bo_ptr \<Rightarrow> int \<Rightarrow> fault + (int \<times> omap_state)" where
  "omap_bo_cpu_fini st p ioctl_res =
     (case bos st p of
        None \<Rightarrow> Inl BadPointer
      | Some b \<Rightarrow>
          if \<not> acquire_cnt b > 0 then Inl AssertFailed
          else
            let st1 = st\<lparr>bos := (bos st)(p \<mapsto> b\<lparr>acquire_cnt := acquire_cnt b - 1\<rparr>)\<rparr>
            in if acquire_cnt b - 1 \<noteq> 0 then Inr (0, st1)
               else Inr (ioctl_res, log_ev st1 (Ev_CPU_RELEASE (exynos_handle b))))"

text \<open>\<^verbatim>\<open>omap_bo_get_dirty\<close> and \<^verbatim>\<open>omap_bo_clear_dirty\<close> (lines 382-390).\<close>

definition omap_bo_get_dirty :: "omap_bo \<Rightarrow> bool" where
  "omap_bo_get_dirty bo = dirty bo"

definition omap_bo_clear_dirty :: "omap_state \<Rightarrow> bo_ptr \<Rightarrow> fault + omap_state" where
  "omap_bo_clear_dirty st p =
     (case bos st p of
        None \<Rightarrow> Inl BadPointer
      | Some b \<Rightarrow> Inr (st\<lparr>bos := (bos st)(p \<mapsto> b\<lparr>dirty := False\<rparr>)\<rparr>))"

section \<open>Swap scheduling (omap\_dri2.c)\<close>

text \<open>What the collaborators outside src return to one call of \<^verbatim>\<open>OMAPDRI2ScheduleSwap\<close>
  or \<^verbatim>\<open>OMAPDRI2SwapComplete\<close>: the address \<^verbatim>\<open>calloc\<close> gives the command, the results of
  \<^verbatim>\<open>drmModeRmFB\<close>, \<^verbatim>\<open>drmmode_set_flip_mode\<close>, \<^verbatim>\<open>drmmode_set_blit_mode\<close>,
  \<^verbatim>\<open>drmmode_page_flip\<close> and \<^verbatim>\<open>GetScratchGC\<close> (whether it is non-null), the value of
  \<^verbatim>\<open>NEXT_SERIAL_NUMBER\<close>, the compile-time switch \<^verbatim>\<open>OMAP_USE_PAGE_FLIP_EVENTS\<close>, and the
  two registry functions \<^verbatim>\<open>drmmode_scanout_from_drawable\<close> (the slot bound to a drawable,
  if any) and \<^verbatim>\<open>drmmode_scanout_set\<close> (its effect on the slots).\<close>

record env =
  calloc_cmd :: "cmd_ptr option"
  drmModeRmFB :: int
  drmmode_scanout_from_drawable :: "scanout list \<Rightarrow> drawable \<Rightarrow> scanout option"
  drmmode_scanout_set :: "scanout list \<Rightarrow> int \<Rightarrow> int \<Rightarrow> bo_ptr option \<Rightarrow> scanout list"
  drmmode_set_flip_mode :: bool
  drmmode_set_blit_mode :: bool
  drmmode_page_flip :: int
  GetScratchGC :: bool
  NEXT_SERIAL_NUMBER :: nat
  OMAP_USE_PAGE_FLIP_EVENTS :: bool

text \<open>Modelled from the spec: the attachment tokens come from the DRI2 header, which is
  not in src; the front attachment is token 0.\<close>

definition DRI2BufferFrontLeft :: u32 where
  "DRI2BufferFrontLeft = 0"

text \<open>\<^verbatim>\<open>dri2draw\<close> (lines 77-85).\<close>

definition dri2draw :: "drawable \<Rightarrow> dri2buf \<Rightarrow> draw_ref" where
  "dri2draw pDraw buf =
     (if attachment buf = DRI2BufferFrontLeft then DrawPtr pDraw
      else PixmapDrawable (pPixmap buf))"

text \<open>Modelled from the spec: \<^verbatim>\<open>draw2pix\<close> is not in src. It resolves a drawable to its
  pixel surface: a pixmap is its own, a window has \<open>draw_pixmap\<close>.\<close>

definition draw2pix :: "draw_ref \<Rightarrow> pix_ptr" where
  "draw2pix d = (case d of DrawPtr pDraw \<Rightarrow> draw_pixmap pDraw | PixmapDrawable p \<Rightarrow> p)"

text \<open>\<^verbatim>\<open>canflip\<close> (lines 87-105). \<open>back_bo\<close> is the structure the argument points to, or
  \<open>None\<close> for a null pointer; \<^verbatim>\<open>pDraw->width\<close> is an \<^verbatim>\<open>unsigned short\<close>, widened for the
  comparison with the \<^verbatim>\<open>uint32_t\<close> of the buffer object.\<close>

definition canflip :: "env \<Rightarrow> scanout list \<Rightarrow> drawable \<Rightarrow> omap_bo option \<Rightarrow> bool" where
  "canflip e scs pDraw back_bo =
     (if draw_type pDraw \<noteq> DRAWABLE_WINDOW then False
      else if (case back_bo of
                 None \<Rightarrow> False
               | Some bo \<Rightarrow> omap_bo_width bo \<noteq> ucast (draw_width pDraw) \<or>
                            omap_bo_height bo \<noteq> ucast (draw_height pDraw))
      then False
      else if drmmode_scanout_from_drawable e scs pDraw \<noteq> None then True
      else False)"

text \<open>\<^verbatim>\<open>OMAPDRI2CopyRegion\<close> (lines 226-262): the copy of the whole drawable, unless no
  scratch GC is to be had.\<close>

definition OMAPDRI2CopyRegion :: "env \<Rightarrow> omap_state \<Rightarrow> drawable \<Rightarrow> dri2buf \<Rightarrow> dri2buf \<Rightarrow> omap_state" where
  "OMAPDRI2CopyRegion e st pDraw pDstBuffer pSrcBuffer =
     (if \<not> GetScratchGC e then st
      else log_ev st (Ev_CopyArea (dri2draw pDraw pSrcBuffer) (dri2draw pDraw pDstBuffer)
                        (draw_width pDraw) (draw_height pDraw)))"

text \<open>Modelled from the spec: \<^verbatim>\<open>OMAPPixmapExchange\<close> is not in src; it swaps the two
  surfaces' storage identities.\<close>

definition OMAPPixmapExchange :: "omap_state \<Rightarrow> pix_ptr \<Rightarrow> pix_ptr \<Rightarrow> fault + omap_state" where
  "OMAPPixmapExchange st a b =
     (case pixmaps st a of
        None \<Rightarrow> Inl BadPointer
      | Some pa \<Rightarrow>
          (case pixmaps st b of
             None \<Rightarrow> Inl BadPointer
           | Some pb \<Rightarrow>
               Inr ((log_ev st (Ev_OMAPPixmapExchange a b))
                      \<lparr>pixmaps := (pixmaps st)(a \<mapsto> pa\<lparr>pix_bo := pix_bo pb\<rparr>,
                                                 b \<mapsto> pb\<lparr>pix_bo := pix_bo pa\<rparr>)\<rparr>)))"

text \<open>Modelled from the spec: \<^verbatim>\<open>pScreen->DestroyPixmap\<close> is not in src; it releases one
  ownership reference of the surface.\<close>

definition DestroyPixmap :: "omap_state \<Rightarrow> pix_ptr \<Rightarrow> fault + omap_state" where
  "DestroyPixmap st p =
     (case pixmaps st p of
        None \<Rightarrow> Inl BadPointer
      | Some pm \<Rightarrow>
          Inr ((log_ev st (Ev_DestroyPixmap p))
                 \<lparr>pixmaps := (pixmaps st)(p \<mapsto> pm\<lparr>pix_refcnt := pix_refcnt pm - 1\<rparr>)\<rparr>))"

text \<open>The two loops over \<^verbatim>\<open>pOMAP->scanouts\<close> (lines 351-353 and 359-364, the second
  with its \<^verbatim>\<open>break\<close>); the list is the whole array.\<close>

fun invalidate_scanouts :: "scanout list \<Rightarrow> scanout list" where
  "invalidate_scanouts [] = []"
| "invalidate_scanouts (s # ss) = s\<lparr>sc_valid := False\<rparr> # invalidate_scanouts ss"

fun validate_scanout :: "scanout list \<Rightarrow> bo_ptr option \<Rightarrow> scanout list" where
  "validate_scanout [] bo = []"
| "validate_scanout (s # ss) bo =
     (if sc_bo s = bo then s\<lparr>sc_valid := True\<rparr> # ss else s # validate_scanout ss bo)"

text \<open>\<^verbatim>\<open>OMAPDRI2SwapComplete\<close>, lines 340-368: what is done when the command has not
  failed and \<^verbatim>\<open>dixLookupDrawable\<close> has found \<open>pDraw\<close>.\<close>

definition swap_complete_found ::
  "env \<Rightarrow> omap_state \<Rightarrow> OMAPDRISwapCmd \<Rightarrow> drawable \<Rightarrow> fault + omap_state" where
  "swap_complete_found e st cmd pDraw =
     (case (if cmd_type cmd \<noteq> DRI2_BLIT_COMPLETE \<and> flags cmd AND OMAP_SWAP_FAKE_FLIP = 0
            then (if cmd_type cmd \<noteq> DRI2_FLIP_COMPLETE then Inl AssertFailed
                  else OMAPPixmapExchange st (pSrcPixmap cmd) (pDstPixmap cmd))
            else Inr st) of
        Inl f \<Rightarrow> Inl f
      | Inr st1 \<Rightarrow>
          let st2 = log_ev st1 (Ev_DRI2SwapComplete (client cmd) pDraw (cmd_type cmd)
                                  (func cmd) (data cmd))
          in if cmd_type cmd = DRI2_BLIT_COMPLETE
             then Inr (st2\<lparr>scanouts := invalidate_scanouts (scanouts st2)\<rparr>)
             else if cmd_type cmd \<noteq> DRI2_FLIP_COMPLETE then Inl AssertFailed
             else
               (case pixmaps st2 (pDstPixmap cmd) of
                  None \<Rightarrow> Inl BadPointer
                | Some dst_priv \<Rightarrow>
                    let st3 = st2\<lparr>scanouts := validate_scanout (scanouts st2) (pix_bo dst_priv)\<rparr>
                    in if flags cmd AND OMAP_SWAP_FAKE_FLIP = 0
                       then Inr ((log_ev st3 (Ev_scanout_set (cmd_x cmd) (cmd_y cmd) (pix_bo dst_priv)))
                                   \<lparr>scanouts := drmmode_scanout_set e (scanouts st3)
                                      (cmd_x cmd) (cmd_y cmd) (pix_bo dst_priv)\<rparr>)
                       else Inr st3))"

text \<open>\<^verbatim>\<open>OMAPDRI2SwapComplete\<close>, lines 372-378: the references are dropped, the counter of
  pending flips is decremented and the command is freed.\<close>

definition swap_complete_cleanup :: "omap_state \<Rightarrow> OMAPDRISwapCmd \<Rightarrow> cmd_ptr \<Rightarrow> fault + omap_state" where
  "swap_complete_cleanup st cmd c =
     (case DestroyPixmap st (pSrcPixmap cmd) of
        Inl f \<Rightarrow> Inl f
      | Inr st1 \<Rightarrow>
          (case DestroyPixmap st1 (pDstPixmap cmd) of
             Inl f \<Rightarrow> Inl f
           | Inr st2 \<Rightarrow>
               (case c_dec (pending_flips st2) of
                  Inl f \<Rightarrow> Inl f
                | Inr n \<Rightarrow> Inr (st2\<lparr>pending_flips := n, cmds := (cmds st2)(c := None)\<rparr>))))"

text \<open>\<^verbatim>\<open>OMAPDRI2SwapComplete\<close> (lines 322-379). \<^verbatim>\<open>dixLookupDrawable\<close> succeeds when the
  id is in the server's table.\<close>

definition OMAPDRI2SwapComplete :: "env \<Rightarrow> omap_state \<Rightarrow> cmd_ptr \<Rightarrow> fault + omap_state" where
  "OMAPDRI2SwapComplete e st c =
     (case cmds st c of
        None \<Rightarrow> Inl BadPointer
      | Some cmd0 \<Rightarrow>
          (case c_dec (swapCount cmd0) of
             Inl f \<Rightarrow> Inl f
           | Inr n \<Rightarrow>
               let cmd = cmd0\<lparr>swapCount := n\<rparr>;
                   st1 = st\<lparr>cmds := (cmds st)(c \<mapsto> cmd)\<rparr>
               in if n > 0 then Inr st1
                  else
                    (case (if flags cmd AND OMAP_SWAP_FAIL = 0
                           then (case drawables st1 (draw_id cmd) of
                                   None \<Rightarrow> Inr st1
                                 | Some pDraw \<Rightarrow> swap_complete_found e st1 cmd pDraw)
                           else Inr st1) of
                       Inl f \<Rightarrow> Inl f
                     | Inr st2 \<Rightarrow> swap_complete_cleanup st2 cmd c)))"

text \<open>Modelled from the spec: \<^verbatim>\<open>omap_bo_get_fb\<close> is not in src (omap\_dumb.c has
  \<^verbatim>\<open>omap_bo_fb\<close>); it yields the registered framebuffer of the object, and dereferences
  its argument.\<close>

definition omap_bo_get_fb :: "omap_state \<Rightarrow> bo_ptr option \<Rightarrow> fault + u32" where
  "omap_bo_get_fb st bo =
     (case bo of
        None \<Rightarrow> Inl NullDeref
      | Some p \<Rightarrow> (case bos st p of None \<Rightarrow> Inl BadPointer | Some b \<Rightarrow> Inr (omap_bo_fb b)))"

text \<open>The structure behind a pointer that may be null.\<close>

definition deref_bo :: "omap_state \<Rightarrow> bo_ptr option \<Rightarrow> fault + omap_bo option" where
  "deref_bo st bo =
     (case bo of
        None \<Rightarrow> Inr None
      | Some p \<Rightarrow> (case bos st p of None \<Rightarrow> Inl BadPointer | Some b \<Rightarrow> Inr (Some b)))"

text \<open>\<^verbatim>\<open>pPixmap->refcnt++\<close> (lines 454-455).\<close>

definition pixmap_ref :: "omap_state \<Rightarrow> pix_ptr \<Rightarrow> fault + omap_state" where
  "pixmap_ref st p =
     (case pixmaps st p of
        None \<Rightarrow> Inl BadPointer
      | Some pm \<Rightarrow>
          (case c_inc (pix_refcnt pm) of
             Inl f \<Rightarrow> Inl f
           | Inr n \<Rightarrow> Inr (st\<lparr>pixmaps := (pixmaps st)(p \<mapsto> pm\<lparr>pix_refcnt := n\<rparr>)\<rparr>)))"

text \<open>\<^verbatim>\<open>OMAPDRI2ScheduleSwap\<close>, lines 429-436 and 442-444: the destination's buffer
  object is rebound, up to the switch of the mode.\<close>

definition swap_rebind :: "env \<Rightarrow> omap_state \<Rightarrow> drawable \<Rightarrow> dri2buf \<Rightarrow> bool \<Rightarrow> fault + omap_state" where
  "swap_rebind e st pDraw dst new_canflip =
     (case pixmaps st (pPixmap dst) of
        None \<Rightarrow> Inl BadPointer
      | Some dst_priv \<Rightarrow>
          if new_canflip \<and> \<not> has_resized st then
            (case drmmode_scanout_from_drawable e (scanouts st) pDraw of
               None \<Rightarrow> Inl NullDeref
             | Some s \<Rightarrow>
                 let old_bo = pix_bo dst_priv;
                     st1 = st\<lparr>pixmaps := (pixmaps st)(pPixmap dst \<mapsto> dst_priv\<lparr>pix_bo := sc_bo s\<rparr>)\<rparr>
                 in (case omap_bo_reference st1 (sc_bo s) of
                       Inl f \<Rightarrow> Inl f
                     | Inr st2 \<Rightarrow> omap_bo_unreference st2 old_bo (drmModeRmFB e)))
          else
            (case omap_bo_reference st (scanout st) of
               Inl f \<Rightarrow> Inl f
             | Inr st1 \<Rightarrow>
                 (case omap_bo_unreference st1 (pix_bo dst_priv) (drmModeRmFB e) of
                    Inl f \<Rightarrow> Inl f
                  | Inr st2 \<Rightarrow>
                      Inr (st2\<lparr>pixmaps := (pixmaps st2)(pPixmap dst \<mapsto>
                                  dst_priv\<lparr>pix_bo := scanout st\<rparr>)\<rparr>))))"

text \<open>Lines 489-525: the flip is requested and the command is completed at once where no
  event will come. \<open>cmd\<close> is the command at \<open>c\<close>.\<close>

definition swap_flip ::
  "env \<Rightarrow> omap_state \<Rightarrow> cmd_ptr \<Rightarrow> OMAPDRISwapCmd \<Rightarrow> drawable \<Rightarrow> u32 \<Rightarrow> fault + (bool \<times> omap_state)" where
  "swap_flip e st c cmd pDraw src_fb_id =
     (let st1 = log_ev st (Ev_page_flip pDraw src_fb_id c);
          ret = drmmode_page_flip e;
          cmd1 = cmd\<lparr>cmd_type := DRI2_FLIP_COMPLETE\<rparr>
      in if ret < 0 then
           let cmd2 = cmd1\<lparr>flags := flags cmd1 OR OMAP_SWAP_FAIL,
                           swapCount := (if \<not> OMAP_USE_PAGE_FLIP_EVENTS e then 0 else - (ret + 1))\<rparr>;
               st2 = st1\<lparr>cmds := (cmds st1)(c \<mapsto> cmd2)\<rparr>
           in if \<not> OMAP_USE_PAGE_FLIP_EVENTS e \<or> swapCount cmd2 = 0
              then (case OMAPDRI2SwapComplete e st2 c of
                      Inl f \<Rightarrow> Inl f
                    | Inr st3 \<Rightarrow> Inr (False, st3))
              else Inr (False, st2)
         else
           let cmd2 = cmd1\<lparr>flags := (if ret = 0 then flags cmd1 OR OMAP_SWAP_FAKE_FLIP
                                       else flags cmd1),
                           swapCount := (if \<not> OMAP_USE_PAGE_FLIP_EVENTS e then 0 else ret)\<rparr>;
               st2 = st1\<lparr>cmds := (cmds st1)(c \<mapsto> cmd2)\<rparr>
           in if \<not> OMAP_USE_PAGE_FLIP_EVENTS e \<or> swapCount cmd2 = 0
              then (case OMAPDRI2SwapComplete e st2 c of
                      Inl f \<Rightarrow> Inl f
                    | Inr st3 \<Rightarrow> Inr (True, st3))
              else Inr (True, st2))"

text \<open>Lines 527-540: the fallback to a copy.\<close>

definition swap_blit ::
  "env \<Rightarrow> omap_state \<Rightarrow> cmd_ptr \<Rightarrow> OMAPDRISwapCmd \<Rightarrow> drawable \<Rightarrow> dri2buf \<Rightarrow> dri2buf \<Rightarrow>
   fault + (bool \<times> omap_state)" where
  "swap_blit e st c cmd pDraw dst src =
     (let st1 = OMAPDRI2CopyRegion e st pDraw dst src;
          st2 = st1\<lparr>cmds := (cmds st1)(c \<mapsto> cmd\<lparr>cmd_type := DRI2_BLIT_COMPLETE\<rparr>)\<rparr>
      in case OMAPDRI2SwapComplete e st2 c of
           Inl f \<Rightarrow> Inl f
         | Inr st3 \<Rightarrow> Inr (True, st3\<lparr>has_resized := False\<rparr>))"

text \<open>Lines 451-542: all that follows the switch of the mode. The window pixmap of a
  drawable that is no window is a bad pointer.\<close>

definition swap_issue ::
  "env \<Rightarrow> omap_state \<Rightarrow> cmd_ptr \<Rightarrow> drawable \<Rightarrow> buf_ptr \<Rightarrow> buf_ptr \<Rightarrow> bool \<Rightarrow>
   fault + (bool \<times> omap_state)" where
  "swap_issue e st c pDraw pDstBuffer pSrcBuffer new_canflip =
     (case cmds st c of None \<Rightarrow> Inl BadPointer | Some cmd \<Rightarrow>
      (case pixmap_ref st (pSrcPixmap cmd) of Inl f \<Rightarrow> Inl f | Inr st1 \<Rightarrow>
      (case pixmap_ref st1 (pDstPixmap cmd) of Inl f \<Rightarrow> Inl f | Inr st2 \<Rightarrow>
      (case c_inc (pending_flips st2) of Inl f \<Rightarrow> Inl f | Inr n \<Rightarrow>
      (let st3 = st2\<lparr>pending_flips := n\<rparr> in
      (case bufs st3 pSrcBuffer of None \<Rightarrow> Inl BadPointer | Some src \<Rightarrow>
      (case bufs st3 pDstBuffer of None \<Rightarrow> Inl BadPointer | Some dst \<Rightarrow>
      (case pixmaps st3 (pPixmap src) of None \<Rightarrow> Inl BadPointer | Some src_priv \<Rightarrow>
      (case pixmaps st3 (pPixmap dst) of None \<Rightarrow> Inl BadPointer | Some dst_priv \<Rightarrow>
      (case omap_bo_get_fb st3 (pix_bo src_priv) of Inl f \<Rightarrow> Inl f | Inr src_fb_id \<Rightarrow>
      (case omap_bo_get_fb st3 (pix_bo dst_priv) of Inl f \<Rightarrow> Inl f | Inr dst_fb_id \<Rightarrow>
      (case (if (previous_canflip src \<noteq> - 1 \<and> previous_canflip src \<noteq> of_bool new_canflip) \<or>
                (previous_canflip dst \<noteq> - 1 \<and> previous_canflip dst \<noteq> of_bool new_canflip) \<or>
                has_resized st3
             then (if draw_type pDraw \<noteq> DRAWABLE_WINDOW then Inl BadPointer
                   else (case pixmaps st3 (draw_pixmap pDraw) of
                           None \<Rightarrow> Inl BadPointer
                         | Some pPix \<Rightarrow>
                             Inr (st3\<lparr>pixmaps := (pixmaps st3)(draw_pixmap pDraw \<mapsto>
                                    pPix\<lparr>pix_serialNumber := NEXT_SERIAL_NUMBER e\<rparr>)\<rparr>)))
             else Inr st3) of Inl f \<Rightarrow> Inl f | Inr st4 \<Rightarrow>
      (let src' = src\<lparr>previous_canflip := of_bool new_canflip\<rparr>;
           dst' = dst\<lparr>previous_canflip := of_bool new_canflip\<rparr>;
           st5 = st4\<lparr>bufs := (bufs st4)(pSrcBuffer \<mapsto> src', pDstBuffer \<mapsto> dst')\<rparr>
       in if src_fb_id \<noteq> 0 \<and> dst_fb_id \<noteq> 0 \<and> new_canflip \<and> \<not> has_resized st5
          then swap_flip e st5 c cmd pDraw src_fb_id
          else swap_blit e st5 c cmd pDraw dst' src')))))))))))))"

text \<open>\<^verbatim>\<open>OMAPDRI2ScheduleSwap\<close>, lines 423-426: \<^verbatim>\<open>canflip\<close> on the buffer object of the
  source buffer's pixmap.\<close>

definition swap_new_canflip :: "env \<Rightarrow> omap_state \<Rightarrow> drawable \<Rightarrow> dri2buf \<Rightarrow> fault + bool" where
  "swap_new_canflip e st pDraw src =
     (case pixmaps st (pPixmap src) of
        None \<Rightarrow> Inl BadPointer
      | Some src_priv \<Rightarrow>
          (case deref_bo st (pix_bo src_priv) of
             Inl f \<Rightarrow> Inl f
           | Inr back_bo \<Rightarrow> Inr (canflip e (scanouts st) pDraw back_bo)))"

text \<open>\<^verbatim>\<open>OMAPDRI2ScheduleSwap\<close> (lines 393-543). The result of \<^verbatim>\<open>calloc\<close> is not
  checked before it is written through. \<^verbatim>\<open>target_msc\<close>, \<^verbatim>\<open>divisor\<close> and
  \<^verbatim>\<open>remainder\<close> are not read.\<close>

definition OMAPDRI2ScheduleSwap ::
  "env \<Rightarrow> omap_state \<Rightarrow> nat \<Rightarrow> drawable \<Rightarrow> buf_ptr \<Rightarrow> buf_ptr \<Rightarrow> nat \<Rightarrow> nat \<Rightarrow>
   fault + (bool \<times> omap_state)" where
  "OMAPDRI2ScheduleSwap e st cl pDraw pDstBuffer pSrcBuffer fn dt =
     (case bufs st pSrcBuffer of None \<Rightarrow> Inl BadPointer | Some src \<Rightarrow>
      (case bufs st pDstBuffer of None \<Rightarrow> Inl BadPointer | Some dst \<Rightarrow>
      (case calloc_cmd e of None \<Rightarrow> Inl NullDeref | Some c \<Rightarrow>
      (let cmd = \<lparr>cmd_type = DRI2_TYPE_UNSET, client = cl, draw_id = draw_xid pDraw,
                  pDstPixmap = draw2pix (dri2draw pDraw dst),
                  pSrcPixmap = draw2pix (dri2draw pDraw src),
                  func = fn, swapCount = 0, flags = 0,
                  cmd_x = draw_x pDraw, cmd_y = draw_y pDraw, data = dt\<rparr>;
           st0 = st\<lparr>cmds := (cmds st)(c \<mapsto> cmd)\<rparr>
       in
      (case swap_new_canflip e st0 pDraw src of Inl f \<Rightarrow> Inl f | Inr new_canflip \<Rightarrow>
      (case swap_rebind e st0 pDraw dst new_canflip of Inl f \<Rightarrow> Inl f | Inr st1 \<Rightarrow>
      (let flip = (new_canflip \<and> \<not> has_resized st0);
           st2 = log_ev st1 (if flip then Ev_set_flip_mode else Ev_set_blit_mode)
       in if \<not> (if flip then drmmode_set_flip_mode e else drmmode_set_blit_mode e)
          then Inr (False, st2)
          else swap_issue e st2 c pDraw pDstBuffer pSrcBuffer new_canflip)))))))"

section \<open>Runs and example states\<close>

text \<open>A run of acquires that all return 0, a run of releases, and repeated completion
  signals for one command.\<close>

fun cpu_prep_all :: "omap_state \<Rightarrow> bo_ptr \<Rightarrow> (u32 \<times> int) list \<Rightarrow> omap_state option" where
  "cpu_prep_all st p [] = Some st"
| "cpu_prep_all st p (a # as) =
     (case omap_bo_cpu_prep st p (fst a) (snd a) of
        Inl e \<Rightarrow> None
      | Inr res \<Rightarrow> if fst res = 0 then cpu_prep_all (snd res) p as else None)"

fun cpu_fini_all :: "omap_state \<Rightarrow> bo_ptr \<Rightarrow> int list \<Rightarrow> omap_state option" where
  "cpu_fini_all st p [] = Some st"
| "cpu_fini_all st p (r # rs) =
     (case omap_bo_cpu_fini st p r of
        Inl e \<Rightarrow> None
      | Inr res \<Rightarrow> cpu_fini_all (snd res) p rs)"

fun swap_complete_n :: "env \<Rightarrow> omap_state \<Rightarrow> cmd_ptr \<Rightarrow> nat \<Rightarrow> fault + omap_state" where
  "swap_complete_n e st c 0 = Inr st"
| "swap_complete_n e st c (Suc n) =
     (case OMAPDRI2SwapComplete e st c of
        Inl f \<Rightarrow> Inl f
      | Inr st' \<Rightarrow> swap_complete_n e st' c n)"

text \<open>What a run shows of its result: the ownership count and the buffer object of a
  surface, the validity flags of the slots, the releases of surfaces and the flip and copy
  requests in a trace.\<close>

definition surface_refs :: "omap_state \<Rightarrow> pix_ptr \<Rightarrow> int option" where
  "surface_refs st p = map_option pix_refcnt (pixmaps st p)"

definition surface_bo :: "fault + omap_state \<Rightarrow> pix_ptr \<Rightarrow> bo_ptr option option" where
  "surface_bo r p = (case r of Inl f \<Rightarrow> None | Inr st \<Rightarrow> map_option pix_bo (pixmaps st p))"

definition trace_of :: "fault + omap_state \<Rightarrow> event list option" where
  "trace_of r = (case r of Inl f \<Rightarrow> None | Inr st \<Rightarrow> Some (trace st))"

definition slots_valid :: "fault + omap_state \<Rightarrow> bool list option" where
  "slots_valid r = (case r of Inl f \<Rightarrow> None | Inr st \<Rightarrow> Some (map sc_valid (scanouts st)))"

fun is_DestroyPixmap :: "event \<Rightarrow> bool" where
  "is_DestroyPixmap (Ev_DestroyPixmap p) = True"
| "is_DestroyPixmap ev = False"

fun is_flip_or_blit :: "event \<Rightarrow> bool" where
  "is_flip_or_blit (Ev_page_flip d fb c) = True"
| "is_flip_or_blit (Ev_CopyArea s d w h) = True"
| "is_flip_or_blit ev = False"

definition st_empty :: omap_state where
  "st_empty = \<lparr>bos = Map.empty, pixmaps = Map.empty, bufs = Map.empty, cmds = Map.empty,
     drawables = Map.empty, scanouts = [], scanout = None, has_resized = False,
     pending_flips = 0, trace = []\<rparr>"

definition ex_bo :: omap_bo where
  "ex_bo = \<lparr>exynos_handle = 7, fb_id = 3, width = 64, height = 64, pitch = 256, depth = 24,
     bpp = 32, pixel_format = 0, refcnt = 1, acquired_exclusive = 0, acquire_cnt = 0,
     dirty = True\<rparr>"

definition st_bo :: "omap_bo \<Rightarrow> omap_state" where
  "st_bo b = st_empty\<lparr>bos := [0 \<mapsto> b]\<rparr>"

definition ex_bo_shared :: omap_bo where
  "ex_bo_shared = ex_bo\<lparr>acquire_cnt := 2, dirty := False\<rparr>"

text \<open>A window of 64 by 64 at the origin with front pixmap 11 on the scanout object 2, a
  back buffer (pixmap 10, object 1), and a registry of two slots.\<close>

definition ex_env :: env where
  "ex_env = \<lparr>calloc_cmd = Some 5, drmModeRmFB = 0,
     drmmode_scanout_from_drawable =
       (\<lambda>scs d. find (\<lambda>s. sc_x s = draw_x d \<and> sc_y s = draw_y d) scs),
     drmmode_scanout_set =
       (\<lambda>scs x y bo. map (\<lambda>s. if sc_bo s = bo then s\<lparr>sc_x := x, sc_y := y\<rparr> else s) scs),
     drmmode_set_flip_mode = True, drmmode_set_blit_mode = True, drmmode_page_flip = 2,
     GetScratchGC = True, NEXT_SERIAL_NUMBER = 9, OMAP_USE_PAGE_FLIP_EVENTS = True\<rparr>"

definition ex_draw :: drawable where
  "ex_draw = \<lparr>draw_type = DRAWABLE_WINDOW, draw_xid = 40, draw_x = 0, draw_y = 0,
     draw_width = 64, draw_height = 64, draw_pixmap = 11\<rparr>"

definition ex_swap_state :: omap_state where
  "ex_swap_state = \<lparr>
     bos = [1 \<mapsto> ex_bo, 2 \<mapsto> ex_bo\<lparr>exynos_handle := 8, fb_id := 4, refcnt := 2\<rparr>],
     pixmaps = [10 \<mapsto> \<lparr>pix_refcnt = 2, pix_bo = Some 1, pix_serialNumber = 0\<rparr>,
                11 \<mapsto> \<lparr>pix_refcnt = 2, pix_bo = Some 2, pix_serialNumber = 0\<rparr>],
     bufs = [20 \<mapsto> \<lparr>attachment = 1, pPixmap = 10, previous_canflip = - 1\<rparr>,
             21 \<mapsto> \<lparr>attachment = 0, pPixmap = 11, previous_canflip = - 1\<rparr>],
     cmds = Map.empty,
     drawables = [40 \<mapsto> ex_draw],
     scanouts = [\<lparr>sc_bo = Some 2, sc_valid = True, sc_x = 0, sc_y = 0\<rparr>,
                 \<lparr>sc_bo = Some 1, sc_valid = False, sc_x = 64, sc_y = 0\<rparr>],
     scanout = Some 2, has_resized = False, pending_flips = 1, trace = []\<rparr>"

definition ex_cmd :: OMAPDRISwapCmd where
  "ex_cmd = \<lparr>cmd_type = DRI2_FLIP_COMPLETE, client = 1, draw_id = 40, pDstPixmap = 11,
     pSrcPixmap = 10, func = 0, swapCount = 2, flags = 0, cmd_x = 0, cmd_y = 0, data = 0\<rparr>"

definition st_cmd :: "OMAPDRISwapCmd \<Rightarrow> omap_state" where
  "st_cmd cmd = ex_swap_state\<lparr>cmds := [5 \<mapsto> cmd]\<rparr>"

definition ex_cmd_last :: OMAPDRISwapCmd where
  "ex_cmd_last = ex_cmd\<lparr>swapCount := 1\<rparr>"

definition ex_cmd_fake :: OMAPDRISwapCmd where
  "ex_cmd_fake = ex_cmd\<lparr>swapCount := 0, flags := OMAP_SWAP_FAKE_FLIP\<rparr>"

text \<open>The dirty flag of the buffer object at an address, if there is one.\<close>

definition bo_dirty :: "omap_state \<Rightarrow> bo_ptr \<Rightarrow> bool option" where
  "bo_dirty st p = map_option omap_bo_get_dirty (bos st p)"

definition ex_bo_clean :: omap_bo where
  "ex_bo_clean = ex_bo\<lparr>dirty := False\<rparr>"

text \<open>A buffer object is allocated, acquired for writing, its dirty flag is cleared, and
  it is acquired for writing once more.\<close>

definition ce_new :: omap_state where
  "ce_new = st_empty\<lparr>bos := [0 \<mapsto> ex_bo],
     trace := [Ev_exynos_bo_create 16384, Ev_drmModeAddFB 64 64 24 32 256 7]\<rparr>"

definition ce_held :: omap_state where
  "ce_held = ce_new\<lparr>bos := [0 \<mapsto> ex_bo\<lparr>acquired_exclusive := 2, acquire_cnt := 1\<rparr>],
     trace := trace ce_new @ [Ev_CPU_ACQUIRE 7 DRM_EXYNOS_GEM_CPU_ACQUIRE_EXCLUSIVE]\<rparr>"

definition ce_cleared :: omap_state where
  "ce_cleared = ce_held\<lparr>bos := [0 \<mapsto> ex_bo\<lparr>acquired_exclusive := 2, acquire_cnt := 1,
                                           dirty := False\<rparr>]\<rparr>"

definition ce_nested :: omap_state where
  "ce_nested = ce_cleared\<lparr>bos := [0 \<mapsto> ex_bo\<lparr>acquired_exclusive := 2, acquire_cnt := 2,
                                              dirty := False\<rparr>]\<rparr>"

definition ex_env_noflip :: env where
  "ex_env_noflip = ex_env\<lparr>drmmode_set_flip_mode := False\<rparr>"

text \<open>The requests of a page flip in a trace, and the example state with a resize
  pending.\<close>

fun is_page_flip :: "event \<Rightarrow> bool" where
  "is_page_flip (Ev_page_flip d fb c) = True"
| "is_page_flip ev = False"

definition ex_resized_state :: omap_state where
  "ex_resized_state = ex_swap_state\<lparr>has_resized := True\<rparr>"

section \<open>Properties\<close>

subsection \<open>Buffer objects\<close>

lemma c_inc_Inr: "c_inc n = Inr m \<Longrightarrow> m = n + 1"
  by (simp add: c_inc_def split: if_splits)

lemma cpu_prep_nested:
  assumes "bos st p = Some b" and "acquire_cnt b \<noteq> 0"
    and "omap_bo_cpu_prep st p op r = Inr (0, st')"
  shows "st' = st\<lparr>bos := (bos st)(p \<mapsto> b\<lparr>acquire_cnt := acquire_cnt b + 1\<rparr>)\<rparr>"
  using assms
  by (auto simp: omap_bo_cpu_prep_def split: if_splits sum.splits dest: c_inc_Inr)

lemma cpu_prep_all_nested:
  "bos st p = Some b \<Longrightarrow> 0 < acquire_cnt b \<Longrightarrow> cpu_prep_all st p as = Some st1 \<Longrightarrow>
   st1 = st\<lparr>bos := (bos st)(p \<mapsto> b\<lparr>acquire_cnt := acquire_cnt b + int (length as)\<rparr>)\<rparr>"
proof (induction as arbitrary: st b)
  case Nil
  then have "(bos st)(p \<mapsto> b) = bos st" by (simp add: map_upd_triv)
  with Nil show ?case by simp
next
  case (Cons a as)
  from Cons.prems(3) obtain st' where
    step: "omap_bo_cpu_prep st p (fst a) (snd a) = Inr (0, st')" and
    rest: "cpu_prep_all st' p as = Some st1"
    by (auto split: sum.splits if_splits)
  let ?b' = "b\<lparr>acquire_cnt := acquire_cnt b + 1\<rparr>"
  from cpu_prep_nested [OF Cons.prems(1) _ step] Cons.prems(2)
  have st': "st' = st\<lparr>bos := (bos st)(p \<mapsto> ?b')\<rparr>" by simp
  then have "bos st' p = Some ?b'" and "0 < acquire_cnt ?b'" using Cons.prems(2) by simp_all
  from Cons.IH [OF this rest] show ?case
    by (simp add: st' add.assoc fun_upd_def cong: if_cong)
qed

lemma cpu_prep_first:
  assumes "bos st p = Some b" and "acquire_cnt b = 0"
    and "omap_bo_cpu_prep st p op r = Inr (0, st')"
  shows "st' = st\<lparr>bos := (bos st)(p \<mapsto> b\<lparr>acquired_exclusive := uint (op AND OMAP_GEM_WRITE),
              acquire_cnt := 1,
              dirty := (op AND OMAP_GEM_WRITE \<noteq> 0 \<or> dirty b)\<rparr>),
            trace := trace st @ [Ev_CPU_ACQUIRE (exynos_handle b)
                (if op AND OMAP_GEM_WRITE \<noteq> 0 then DRM_EXYNOS_GEM_CPU_ACQUIRE_EXCLUSIVE
                 else DRM_EXYNOS_GEM_CPU_ACQUIRE_SHARED)]\<rparr>"
  using assms
  by (auto simp: omap_bo_cpu_prep_def log_ev_def Let_def c_inc_def INT_MAX_def uint_0_iff
        split: if_splits sum.splits)

lemma cpu_fini_all_nested:
  "bos st p = Some b \<Longrightarrow> int (length rs) \<le> acquire_cnt b \<Longrightarrow>
   cpu_fini_all st p rs =
     Some (st\<lparr>bos := (bos st)(p \<mapsto> b\<lparr>acquire_cnt := acquire_cnt b - int (length rs)\<rparr>),
              trace := trace st @
                (if rs \<noteq> [] \<and> int (length rs) = acquire_cnt b
                 then [Ev_CPU_RELEASE (exynos_handle b)] else [])\<rparr>)"
proof (induction rs arbitrary: st b)
  case Nil
  then have "(bos st)(p \<mapsto> b) = bos st" by (simp add: map_upd_triv)
  then show ?case by simp
next
  case (Cons r rs)
  let ?b' = "b\<lparr>acquire_cnt := acquire_cnt b - 1\<rparr>"
  let ?st' = "st\<lparr>bos := (bos st)(p \<mapsto> ?b')\<rparr>"
  show ?case
  proof (cases "acquire_cnt b - 1 = 0")
    case True
    with Cons.prems have "rs = []" by simp
    with True Cons.prems show ?thesis
      by (simp add: omap_bo_cpu_fini_def log_ev_def Let_def fun_upd_def cong: if_cong)
  next
    case False
    with Cons.prems have step: "omap_bo_cpu_fini st p r = Inr (0, ?st')"
      by (simp add: omap_bo_cpu_fini_def Let_def)
    have "bos ?st' p = Some ?b'" and "int (length rs) \<le> acquire_cnt ?b'"
      using Cons.prems by simp_all
    from Cons.IH [OF this] step False Cons.prems show ?thesis
      by (auto simp: algebra_simps fun_upd_def cong: if_cong)
  qed
qed

text \<open>C6. Creation is all or nothing. With the pitch \<open>P\<close> of lines 128-129 and the
  size \<open>h * P\<close>: when \<^verbatim>\<open>calloc\<close> fails nothing is done; when the memory cannot be
  created, nothing is returned after that one request; when the registration of the
  framebuffer fails, the memory just created is destroyed (the trace grows by the create,
  the registration and the destroy of the same handle) and nothing is returned; when it
  succeeds, the trace grows by the create and the registration (\<^verbatim>\<open>drmModeAddFB\<close> for a
  depth, \<^verbatim>\<open>drmModeAddFB2\<close> for a format) and the buffer object returned is in the store
  with that framebuffer, reference count 1, dirty set and acquire depth 0. Whenever nothing
  is returned, no buffer object has entered the store; whatever is returned has had its
  framebuffer registered.\<close>

theorem omap_bo_new_all_or_nothing:
  "(let P = ((((w * ucast b + 7) div 8) + 63) div 64) * 64;
        created = Ev_exynos_bo_create (h * P);
        registered = (\<lambda>hdl. if d \<noteq> 0 then Ev_drmModeAddFB w h d b P hdl
                            else Ev_drmModeAddFB2 w h fmt hdl P)
    in
      omap_bo_new st None create_res addfb_res w h d b fmt = (None, st) \<and>
      omap_bo_new st (Some new_buf) None addfb_res w h d b fmt =
        (None, st\<lparr>trace := trace st @ [created]\<rparr>) \<and>
      (fst addfb_res < 0 \<longrightarrow>
         omap_bo_new st (Some new_buf) (Some hdl) addfb_res w h d b fmt =
           (None, st\<lparr>trace := trace st @ [created, registered hdl, Ev_exynos_bo_destroy hdl]\<rparr>)) \<and>
      (0 \<le> fst addfb_res \<longrightarrow>
         omap_bo_new st (Some new_buf) (Some hdl) addfb_res w h d b fmt =
           (Some new_buf,
            st\<lparr>trace := trace st @ [created, registered hdl],
               bos := (bos st)(new_buf \<mapsto>
                 \<lparr>exynos_handle = hdl, fb_id = snd addfb_res, width = w, height = h,
                  pitch = P, depth = d, bpp = b, pixel_format = fmt, refcnt = 1,
                  acquired_exclusive = 0, acquire_cnt = 0, dirty = True\<rparr>)\<rparr>)) \<and>
      (fst (omap_bo_new st calloc_res create_res addfb_res w h d b fmt) = None \<longrightarrow>
         bos (snd (omap_bo_new st calloc_res create_res addfb_res w h d b fmt)) = bos st) \<and>
      (fst (omap_bo_new st calloc_res create_res addfb_res w h d b fmt) = Some q \<longrightarrow>
         (\<exists>bo. bos (snd (omap_bo_new st calloc_res create_res addfb_res w h d b fmt)) q = Some bo \<and>
               refcnt bo = 1 \<and> dirty bo \<and> acquire_cnt bo = 0 \<and>
               0 \<le> fst addfb_res \<and> fb_id bo = snd addfb_res \<and>
               create_res = Some (exynos_handle bo) \<and>
               trace (snd (omap_bo_new st calloc_res create_res addfb_res w h d b fmt)) =
                 trace st @ [created, registered (exynos_handle bo)])))"
  by (auto simp: omap_bo_new_def log_ev_def Let_def split: option.splits)

theorem omap_bo_new_all_or_nothing_witness:
  "omap_bo_new st_empty (Some 0) (Some 7) (- 1, 0) 100 64 24 32 0 =
     (None, st_empty\<lparr>trace := [Ev_exynos_bo_create 28672, Ev_drmModeAddFB 100 64 24 32 448 7,
                                Ev_exynos_bo_destroy 7]\<rparr>) \<and>
   omap_bo_new st_empty (Some 0) (Some 7) (- 1, 0) 100 64 0 32 875713112 =
     (None, st_empty\<lparr>trace := [Ev_exynos_bo_create 28672,
                                Ev_drmModeAddFB2 100 64 875713112 7 448,
                                Ev_exynos_bo_destroy 7]\<rparr>) \<and>
   bos (snd (omap_bo_new st_empty (Some 0) (Some 7) (- 1, 0) 100 64 24 32 0)) = bos st_empty \<and>
   omap_bo_new st_empty (Some 0) (Some 7) (0, 3) 64 64 24 32 0 = (Some 0, ce_new) \<and>
   bos ce_new 0 = Some ex_bo \<and> refcnt ex_bo = 1 \<and> dirty ex_bo \<and> acquire_cnt ex_bo = 0 \<and>
   pitch ex_bo = 256 \<and>
   trace ce_new = [Ev_exynos_bo_create 16384, Ev_drmModeAddFB 64 64 24 32 256 7]"
  using omap_bo_new_all_or_nothing [of 100 32 64 24 0 st_empty "Some 7" "(- 1, 0)" 0 7 "Some 0" 0]
    omap_bo_new_all_or_nothing [of 100 32 64 0 875713112 st_empty "Some 7" "(- 1, 0)" 0 7 "Some 0" 0]
    omap_bo_new_all_or_nothing [of 64 32 64 24 0 st_empty "Some 7" "(0, 3)" 0 7 "Some 0" 0]
  by (simp add: omap_bo_new_def log_ev_def st_empty_def ce_new_def ex_bo_def)

text \<open>C7. A write acquire of a buffer object that is held for reading (depth above 0, not
  exclusive) returns 1 and leaves the whole state as it was: depth, exclusivity and dirty
  flag are unchanged and no ioctl is issued, so the call cannot block.\<close>

theorem cpu_prep_write_while_shared:
  assumes "bos st p = Some b" and "0 < acquire_cnt b" and "acquired_exclusive b = 0"
    and "op AND OMAP_GEM_WRITE \<noteq> 0"
  shows "omap_bo_cpu_prep st p op ioctl_res = Inr (1, st)"
  using assms by (simp add: omap_bo_cpu_prep_def)

theorem cpu_prep_write_while_shared_witness:
  "omap_bo_cpu_prep (st_bo ex_bo_shared) 0 OMAP_GEM_WRITE 0 = Inr (1, st_bo ex_bo_shared)"
proof -
  have "bos (st_bo ex_bo_shared) 0 = Some ex_bo_shared" by (simp add: st_bo_def)
  moreover have "0 < acquire_cnt ex_bo_shared" and "acquired_exclusive ex_bo_shared = 0"
    by (simp_all add: ex_bo_shared_def ex_bo_def)
  moreover have "OMAP_GEM_WRITE AND OMAP_GEM_WRITE \<noteq> 0" by (simp add: OMAP_GEM_WRITE_def)
  ultimately show ?thesis by (rule cpu_prep_write_while_shared)
qed

text \<open>C8. Nesting. From depth 0, after K acquires that all succeed (K is the length of
  \<open>a # as\<close>) the trace has grown by the one acquire ioctl of the first call and the
  later calls have changed the depth only; after j \<le> K releases the depth is K - j, and
  the one release ioctl is issued exactly when j = K.\<close>

theorem cpu_prep_fini_nested_once:
  assumes live: "bos st p = Some b" and idle: "acquire_cnt b = 0"
    and acquired: "cpu_prep_all st p (a # as) = Some st1"
    and releases: "length rs \<le> Suc (length as)"
  shows "\<exists>b1. st1 = st\<lparr>bos := (bos st)(p \<mapsto> b1),
                  trace := trace st @ [Ev_CPU_ACQUIRE (exynos_handle b)
                    (if fst a AND OMAP_GEM_WRITE \<noteq> 0 then DRM_EXYNOS_GEM_CPU_ACQUIRE_EXCLUSIVE
                     else DRM_EXYNOS_GEM_CPU_ACQUIRE_SHARED)]\<rparr> \<and>
          b1 = b\<lparr>acquired_exclusive := uint (fst a AND OMAP_GEM_WRITE),
                 acquire_cnt := int (Suc (length as)),
                 dirty := (fst a AND OMAP_GEM_WRITE \<noteq> 0 \<or> dirty b)\<rparr> \<and>
          cpu_fini_all st1 p rs =
            Some (st1\<lparr>bos := (bos st1)(p \<mapsto>
                        b1\<lparr>acquire_cnt := int (Suc (length as)) - int (length rs)\<rparr>),
                      trace := trace st1 @
                        (if length rs = Suc (length as)
                         then [Ev_CPU_RELEASE (exynos_handle b)] else [])\<rparr>)"
proof -
  let ?b0 = "b\<lparr>acquired_exclusive := uint (fst a AND OMAP_GEM_WRITE), acquire_cnt := 1,
               dirty := (fst a AND OMAP_GEM_WRITE \<noteq> 0 \<or> dirty b)\<rparr>"
  let ?b1 = "b\<lparr>acquired_exclusive := uint (fst a AND OMAP_GEM_WRITE),
               acquire_cnt := int (Suc (length as)),
               dirty := (fst a AND OMAP_GEM_WRITE \<noteq> 0 \<or> dirty b)\<rparr>"
  from acquired obtain st0 where
    first: "omap_bo_cpu_prep st p (fst a) (snd a) = Inr (0, st0)" and
    rest: "cpu_prep_all st0 p as = Some st1"
    by (auto split: sum.splits if_splits)
  note st0 = cpu_prep_first [OF live idle first]
  then have "bos st0 p = Some ?b0" and "0 < acquire_cnt ?b0" by simp_all
  from cpu_prep_all_nested [OF this rest]
  have st1: "st1 = st\<lparr>bos := (bos st)(p \<mapsto> ?b1),
                  trace := trace st @ [Ev_CPU_ACQUIRE (exynos_handle b)
                    (if fst a AND OMAP_GEM_WRITE \<noteq> 0 then DRM_EXYNOS_GEM_CPU_ACQUIRE_EXCLUSIVE
                     else DRM_EXYNOS_GEM_CPU_ACQUIRE_SHARED)]\<rparr>"
    by (auto simp: st0 intro!: omap_state.equality omap_bo.equality ext)
  then have "bos st1 p = Some ?b1" by simp
  moreover have "int (length rs) \<le> acquire_cnt ?b1" using releases by simp
  ultimately have "cpu_fini_all st1 p rs =
     Some (st1\<lparr>bos := (bos st1)(p \<mapsto> ?b1\<lparr>acquire_cnt := acquire_cnt ?b1 - int (length rs)\<rparr>),
              trace := trace st1 @
                (if rs \<noteq> [] \<and> int (length rs) = acquire_cnt ?b1
                 then [Ev_CPU_RELEASE (exynos_handle ?b1)] else [])\<rparr>)"
    by (rule cpu_fini_all_nested)
  moreover have "(rs \<noteq> [] \<and> int (length rs) = acquire_cnt ?b1) = (length rs = Suc (length as))"
    by auto
  ultimately show ?thesis using st1 by simp
qed

theorem cpu_prep_fini_nested_once_witness:
  "map_option trace (cpu_prep_all (st_bo ex_bo) 0 [(OMAP_GEM_WRITE, 0), (OMAP_GEM_READ, 0), (OMAP_GEM_WRITE, 0)])
     = Some [Ev_CPU_ACQUIRE 7 DRM_EXYNOS_GEM_CPU_ACQUIRE_EXCLUSIVE] \<and>
   map_option trace (Option.bind
       (cpu_prep_all (st_bo ex_bo) 0 [(OMAP_GEM_WRITE, 0), (OMAP_GEM_READ, 0), (OMAP_GEM_WRITE, 0)])
       (\<lambda>s. cpu_fini_all s 0 [0, 0, 0]))
     = Some [Ev_CPU_ACQUIRE 7 DRM_EXYNOS_GEM_CPU_ACQUIRE_EXCLUSIVE, Ev_CPU_RELEASE 7]"
proof -
  let ?st = "st_bo ex_bo"
  let ?ops = "[(OMAP_GEM_READ, 0::int), (OMAP_GEM_WRITE, 0)]"
  have live: "bos ?st 0 = Some ex_bo" by (simp add: st_bo_def)
  have idle: "acquire_cnt ex_bo = 0" by (simp add: ex_bo_def)
  obtain st1 where acquired: "cpu_prep_all ?st 0 ((OMAP_GEM_WRITE, 0) # ?ops) = Some st1"
    by (simp add: omap_bo_cpu_prep_def st_bo_def st_empty_def ex_bo_def log_ev_def
        OMAP_GEM_WRITE_def OMAP_GEM_READ_def c_inc_def INT_MAX_def)
  have releases: "length [0::int, 0, 0] \<le> Suc (length ?ops)" by simp
  have empty: "trace ?st = []" by (simp add: st_bo_def st_empty_def)
  from cpu_prep_fini_nested_once [OF live idle acquired releases] obtain b1 where
    st1: "st1 = ?st\<lparr>bos := (bos ?st)(0 \<mapsto> b1),
             trace := trace ?st @ [Ev_CPU_ACQUIRE (exynos_handle ex_bo)
               (if fst (OMAP_GEM_WRITE, 0::int) AND OMAP_GEM_WRITE \<noteq> 0
                then DRM_EXYNOS_GEM_CPU_ACQUIRE_EXCLUSIVE
                else DRM_EXYNOS_GEM_CPU_ACQUIRE_SHARED)]\<rparr>" and
    fin: "cpu_fini_all st1 0 [0, 0, 0] =
            Some (st1\<lparr>bos := (bos st1)(0 \<mapsto>
                        b1\<lparr>acquire_cnt := int (Suc (length ?ops)) - int (length [0::int, 0, 0])\<rparr>),
                      trace := trace st1 @
                        (if length [0::int, 0, 0] = Suc (length ?ops)
                         then [Ev_CPU_RELEASE (exynos_handle ex_bo)] else [])\<rparr>)"
    by blast
  have handle: "exynos_handle ex_bo = 7" by (simp add: ex_bo_def)
  have "trace st1 = [Ev_CPU_ACQUIRE 7 DRM_EXYNOS_GEM_CPU_ACQUIRE_EXCLUSIVE]"
    by (simp add: st1 empty handle OMAP_GEM_WRITE_def)
  then show ?thesis
    by (simp add: acquired fin handle del: cpu_prep_all.simps cpu_fini_all.simps)
qed

text \<open>C9, as amended. The dirty flag is set after a successful write acquire that takes the
  buffer object from depth 0, and after a new allocation; a nested acquire that succeeds
  leaves the flag as it was.\<close>

theorem dirty_after_write_acquire:
  "(bos st p = Some b \<longrightarrow> acquire_cnt b = 0 \<longrightarrow> op AND OMAP_GEM_WRITE \<noteq> 0 \<longrightarrow>
      omap_bo_cpu_prep st p op ioctl_res = Inr (0, st') \<longrightarrow> bo_dirty st' p = Some True) \<and>
   (bos st p = Some b \<longrightarrow> acquire_cnt b \<noteq> 0 \<longrightarrow>
      omap_bo_cpu_prep st p op ioctl_res = Inr (0, st') \<longrightarrow> bo_dirty st' p = bo_dirty st p) \<and>
   (omap_bo_new st calloc_res create_res addfb_res w h d bp fmt = (Some q, st'') \<longrightarrow>
      bo_dirty st'' q = Some True)"
proof (intro conjI impI)
  assume "bos st p = Some b" "acquire_cnt b = 0" "op AND OMAP_GEM_WRITE \<noteq> 0"
    "omap_bo_cpu_prep st p op ioctl_res = Inr (0, st')"
  from cpu_prep_first [OF this(1,2,4)] this(3)
  show "bo_dirty st' p = Some True"
    by (simp add: bo_dirty_def omap_bo_get_dirty_def)
next
  assume "bos st p = Some b" "acquire_cnt b \<noteq> 0"
    "omap_bo_cpu_prep st p op ioctl_res = Inr (0, st')"
  from cpu_prep_nested [OF this] \<open>bos st p = Some b\<close>
  show "bo_dirty st' p = bo_dirty st p"
    by (simp add: bo_dirty_def omap_bo_get_dirty_def)
next
  assume "omap_bo_new st calloc_res create_res addfb_res w h d bp fmt = (Some q, st'')"
  then show "bo_dirty st'' q = Some True"
    by (auto simp: omap_bo_new_def log_ev_def Let_def bo_dirty_def omap_bo_get_dirty_def
        split: option.splits if_splits)
qed

theorem dirty_after_write_acquire_witness:
  "bo_dirty (st_bo ex_bo_clean) 0 = Some False \<and>
   omap_bo_cpu_prep (st_bo ex_bo_clean) 0 OMAP_GEM_WRITE 0 =
     Inr (0, (st_bo (ex_bo\<lparr>acquired_exclusive := 2, acquire_cnt := 1\<rparr>))
               \<lparr>trace := [Ev_CPU_ACQUIRE 7 DRM_EXYNOS_GEM_CPU_ACQUIRE_EXCLUSIVE]\<rparr>) \<and>
   bo_dirty ((st_bo (ex_bo\<lparr>acquired_exclusive := 2, acquire_cnt := 1\<rparr>))
               \<lparr>trace := [Ev_CPU_ACQUIRE 7 DRM_EXYNOS_GEM_CPU_ACQUIRE_EXCLUSIVE]\<rparr>) 0 = Some True \<and>
   omap_bo_cpu_prep (st_bo ex_bo_shared) 0 OMAP_GEM_READ 0 =
     Inr (0, st_bo (ex_bo_shared\<lparr>acquire_cnt := 3\<rparr>)) \<and>
   bo_dirty (st_bo (ex_bo_shared\<lparr>acquire_cnt := 3\<rparr>)) 0 = Some False \<and>
   omap_bo_new st_empty (Some 0) (Some 7) (0, 3) 64 64 24 32 0 = (Some 0, ce_new) \<and>
   bo_dirty ce_new 0 = Some True"
proof -
  let ?held = "(st_bo (ex_bo\<lparr>acquired_exclusive := 2, acquire_cnt := 1\<rparr>))
               \<lparr>trace := [Ev_CPU_ACQUIRE 7 DRM_EXYNOS_GEM_CPU_ACQUIRE_EXCLUSIVE]\<rparr>"
  have live: "bos (st_bo ex_bo_clean) 0 = Some ex_bo_clean" and idle: "acquire_cnt ex_bo_clean = 0"
    and wr: "OMAP_GEM_WRITE AND OMAP_GEM_WRITE \<noteq> 0"
    by (simp_all add: st_bo_def ex_bo_clean_def ex_bo_def OMAP_GEM_WRITE_def)
  have first: "omap_bo_cpu_prep (st_bo ex_bo_clean) 0 OMAP_GEM_WRITE 0 = Inr (0, ?held)"
    by (simp add: omap_bo_cpu_prep_def st_bo_def st_empty_def ex_bo_clean_def ex_bo_def
        log_ev_def c_inc_def INT_MAX_def OMAP_GEM_WRITE_def)
  have live2: "bos (st_bo ex_bo_shared) 0 = Some ex_bo_shared" and held: "acquire_cnt ex_bo_shared \<noteq> 0"
    by (simp_all add: st_bo_def ex_bo_shared_def)
  have nested: "omap_bo_cpu_prep (st_bo ex_bo_shared) 0 OMAP_GEM_READ 0 =
     Inr (0, st_bo (ex_bo_shared\<lparr>acquire_cnt := 3\<rparr>))"
    by (simp add: omap_bo_cpu_prep_def st_bo_def st_empty_def ex_bo_shared_def ex_bo_def
        c_inc_def INT_MAX_def OMAP_GEM_WRITE_def OMAP_GEM_READ_def)
  have new: "omap_bo_new st_empty (Some 0) (Some 7) (0, 3) 64 64 24 32 0 = (Some 0, ce_new)"
    by (simp add: omap_bo_new_def log_ev_def st_empty_def ce_new_def ex_bo_def)
  note inst1 = dirty_after_write_acquire [of "st_bo ex_bo_clean" 0 ex_bo_clean OMAP_GEM_WRITE 0 ?held]
  note inst3 = dirty_after_write_acquire [of st_empty _ _ _ _ _ "Some 0" "Some 7" "(0, 3)"
      64 64 24 32 0 0 ce_new]
  note inst2 = dirty_after_write_acquire [of "st_bo ex_bo_shared" 0 ex_bo_shared OMAP_GEM_READ 0
      "st_bo (ex_bo_shared\<lparr>acquire_cnt := 3\<rparr>)"]
  from inst1 live idle wr first have d1: "bo_dirty ?held 0 = Some True" by blast
  from inst3 new have d3: "bo_dirty ce_new 0 = Some True" by blast
  from inst2 live2 held nested
  have "bo_dirty (st_bo (ex_bo_shared\<lparr>acquire_cnt := 3\<rparr>)) 0 = bo_dirty (st_bo ex_bo_shared) 0"
    by blast
  then have d2: "bo_dirty (st_bo (ex_bo_shared\<lparr>acquire_cnt := 3\<rparr>)) 0 = Some False"
    by (simp add: bo_dirty_def st_bo_def ex_bo_shared_def omap_bo_get_dirty_def)
  have d0: "bo_dirty (st_bo ex_bo_clean) 0 = Some False"
    by (simp add: bo_dirty_def st_bo_def ex_bo_clean_def omap_bo_get_dirty_def)
  from d0 first d1 nested d2 new d3 show ?thesis by blast
qed

text \<open>C9 as stated fails for the nested write acquire: a buffer object is allocated,
  acquired for writing, its dirty flag is cleared, and the second write acquire, made
  while it is held exclusively, succeeds and leaves the flag clear.\<close>

theorem dirty_nested_write_counterexample:
  "omap_bo_new st_empty (Some 0) (Some 7) (0, 3) 64 64 24 32 0 = (Some 0, ce_new) \<and>
   omap_bo_cpu_prep ce_new 0 OMAP_GEM_WRITE 0 = Inr (0, ce_held) \<and>
   omap_bo_clear_dirty ce_held 0 = Inr ce_cleared \<and>
   omap_bo_cpu_prep ce_cleared 0 OMAP_GEM_WRITE 0 = Inr (0, ce_nested) \<and>
   bo_dirty ce_nested 0 = Some False"
  by (simp add: omap_bo_new_def omap_bo_cpu_prep_def omap_bo_clear_dirty_def log_ev_def
      st_empty_def ce_new_def ce_held_def ce_cleared_def ce_nested_def ex_bo_def
      c_inc_def INT_MAX_def OMAP_GEM_WRITE_def bo_dirty_def omap_bo_get_dirty_def)

text \<open>C10. Unreference of a null pointer returns at once and changes nothing, and so does the
  internal delete; on a buffer object that is present, a reference count that is not
  positive fails the assertion.\<close>

theorem omap_bo_unreference_null:
  "omap_bo_unreference st None rmfb_res = Inr st \<and>
   omap_bo_del st None rmfb_res = Inr st \<and>
   (bos st p = Some b \<longrightarrow> refcnt b \<le> 0 \<longrightarrow>
      omap_bo_unreference st (Some p) rmfb_res = Inl AssertFailed)"
  by (simp add: omap_bo_unreference_def omap_bo_del_def)

theorem omap_bo_unreference_null_witness:
  "omap_bo_unreference (st_bo ex_bo) None 0 = Inr (st_bo ex_bo) \<and>
   omap_bo_del (st_bo ex_bo) None 0 = Inr (st_bo ex_bo) \<and>
   omap_bo_unreference (st_bo (ex_bo\<lparr>refcnt := 0\<rparr>)) (Some 0) 0 = Inl AssertFailed"
  using omap_bo_unreference_null [of "st_bo ex_bo" 0]
    omap_bo_unreference_null [of "st_bo (ex_bo\<lparr>refcnt := 0\<rparr>)" 0 0 "ex_bo\<lparr>refcnt := 0\<rparr>"]
  by (simp add: st_bo_def)

subsection \<open>Flip eligibility\<close>

lemma unat_ucast_u16: "unat (ucast (d :: u16) :: u32) = unat d"
proof -
  have "unat d < 2 ^ 16" using unsigned_less [of d] by simp
  then have "unat d < 2 ^ 32" by simp
  then show ?thesis by (simp add: unsigned_ucast_eq take_bit_nat_eq_self)
qed

lemma ucast_u16_eq: "((w :: u32) = ucast (d :: u16)) = (unat w = unat d)"
  by (simp add: word_unat_eq_iff [of w] unat_ucast_u16)

text \<open>C2. \<^verbatim>\<open>canflip\<close> is true exactly when the drawable is a window, the candidate buffer
  object is absent or has the drawable's width and height, and the registry has a slot
  bound to the drawable; so it is false for a drawable that is no window and for a
  buffer object of another size, whatever the registry says.\<close>

theorem canflip_iff:
  "canflip e scs pDraw back_bo =
     (draw_type pDraw = DRAWABLE_WINDOW \<and>
      (case back_bo of
         None \<Rightarrow> True
       | Some bo \<Rightarrow> unat (width bo) = unat (draw_width pDraw) \<and>
                    unat (height bo) = unat (draw_height pDraw)) \<and>
      drmmode_scanout_from_drawable e scs pDraw \<noteq> None) \<and>
   (draw_type pDraw \<noteq> DRAWABLE_WINDOW \<longrightarrow> \<not> canflip e scs pDraw back_bo) \<and>
   (back_bo = Some bo \<longrightarrow>
      unat (width bo) \<noteq> unat (draw_width pDraw) \<or> unat (height bo) \<noteq> unat (draw_height pDraw) \<longrightarrow>
      \<not> canflip e scs pDraw back_bo)"
  by (auto simp: canflip_def omap_bo_width_def omap_bo_height_def ucast_u16_eq
      split: option.splits)

theorem canflip_iff_witness:
  "canflip ex_env (scanouts ex_swap_state) ex_draw (Some ex_bo) \<and>
   canflip ex_env (scanouts ex_swap_state) ex_draw None \<and>
   \<not> canflip ex_env (scanouts ex_swap_state) (ex_draw\<lparr>draw_type := DRAWABLE_PIXMAP\<rparr>) (Some ex_bo) \<and>
   \<not> canflip ex_env (scanouts ex_swap_state) ex_draw (Some (ex_bo\<lparr>width := 65\<rparr>)) \<and>
   \<not> canflip ex_env (scanouts ex_swap_state) (ex_draw\<lparr>draw_x := 5\<rparr>) (Some ex_bo)"
  using canflip_iff [of ex_env "scanouts ex_swap_state" ex_draw "Some ex_bo" ex_bo]
    canflip_iff [of ex_env "scanouts ex_swap_state" ex_draw None ex_bo]
    canflip_iff [of ex_env "scanouts ex_swap_state" "ex_draw\<lparr>draw_type := DRAWABLE_PIXMAP\<rparr>"
      "Some ex_bo" ex_bo]
    canflip_iff [of ex_env "scanouts ex_swap_state" ex_draw "Some (ex_bo\<lparr>width := 65\<rparr>)"
      "ex_bo\<lparr>width := 65\<rparr>"]
    canflip_iff [of ex_env "scanouts ex_swap_state" "ex_draw\<lparr>draw_x := 5\<rparr>" "Some ex_bo" ex_bo]
  by (simp add: ex_env_def ex_swap_state_def ex_draw_def ex_bo_def)

subsection \<open>Completion of a swap\<close>

lemma swap_complete_cleanup_live:
  assumes "pixmaps st (pSrcPixmap cmd) = Some ps" and "pixmaps st (pDstPixmap cmd) = Some pd"
    and "INT_MIN < pending_flips st"
  shows "\<exists>st'. swap_complete_cleanup st cmd c = Inr st' \<and>
     cmds st' = (cmds st)(c := None) \<and>
     pending_flips st' = pending_flips st - 1 \<and>
     (\<forall>q. surface_refs st' q =
         map_option (\<lambda>r. r - of_bool (q = pSrcPixmap cmd) - of_bool (q = pDstPixmap cmd))
           (surface_refs st q)) \<and>
     (\<forall>q. map_option pix_bo (pixmaps st' q) = map_option pix_bo (pixmaps st q)) \<and>
     scanouts st' = scanouts st \<and>
     trace st' = trace st @ [Ev_DestroyPixmap (pSrcPixmap cmd), Ev_DestroyPixmap (pDstPixmap cmd)]"
  using assms
  by (auto simp: swap_complete_cleanup_def DestroyPixmap_def log_ev_def c_dec_def
      surface_refs_def option.map_ident)

lemma swap_complete_found_frame:
  assumes "pixmaps st (pSrcPixmap cmd) = Some ps" and "pixmaps st (pDstPixmap cmd) = Some pd"
    and "cmd_type cmd = DRI2_BLIT_COMPLETE \<or> cmd_type cmd = DRI2_FLIP_COMPLETE"
  shows "\<exists>st'. swap_complete_found e st cmd pDraw = Inr st' \<and>
     cmds st' = cmds st \<and> pending_flips st' = pending_flips st \<and>
     (\<forall>q. surface_refs st' q = surface_refs st q) \<and>
     filter is_DestroyPixmap (trace st') = filter is_DestroyPixmap (trace st)"
  using assms
  by (auto simp: swap_complete_found_def OMAPPixmapExchange_def log_ev_def Let_def
      surface_refs_def)

lemma swap_complete_pending:
  assumes "cmds st c = Some cmd" and "1 < swapCount cmd"
  shows "OMAPDRI2SwapComplete e st c =
           Inr (st\<lparr>cmds := (cmds st)(c \<mapsto> cmd\<lparr>swapCount := swapCount cmd - 1\<rparr>)\<rparr>)"
  using assms by (simp add: OMAPDRI2SwapComplete_def c_dec_def INT_MIN_def Let_def)

lemma swap_complete_n_pending:
  "cmds st c = Some cmd \<Longrightarrow> int k < swapCount cmd \<Longrightarrow>
   swap_complete_n e st c k =
     Inr (st\<lparr>cmds := (cmds st)(c \<mapsto> cmd\<lparr>swapCount := swapCount cmd - int k\<rparr>)\<rparr>)"
proof (induction k arbitrary: st cmd)
  case 0
  then have "(cmds st)(c \<mapsto> cmd) = cmds st" by (simp add: map_upd_triv)
  then show ?case by simp
next
  case (Suc k)
  let ?cmd' = "cmd\<lparr>swapCount := swapCount cmd - 1\<rparr>"
  let ?st' = "st\<lparr>cmds := (cmds st)(c \<mapsto> ?cmd')\<rparr>"
  from Suc.prems have step: "OMAPDRI2SwapComplete e st c = Inr ?st'"
    by (intro swap_complete_pending) simp_all
  have "cmds ?st' c = Some ?cmd'" and "int k < swapCount ?cmd'"
    using Suc.prems by simp_all
  from Suc.IH [OF this] step show ?case
    by (simp add: algebra_simps fun_upd_def cong: if_cong)
qed

lemma swap_complete_n_add:
  "swap_complete_n e st c k = Inr st1 \<Longrightarrow>
   swap_complete_n e st c (k + j) = swap_complete_n e st1 c j"
  by (induction k arbitrary: st) (auto split: sum.splits)

lemma swap_complete_last:
  assumes "cmds st c = Some cmd" and "swapCount cmd \<le> 1" and "INT_MIN < swapCount cmd"
  shows "OMAPDRI2SwapComplete e st c =
     (case (if flags cmd AND OMAP_SWAP_FAIL = 0
            then (case drawables st (draw_id cmd) of
                    None \<Rightarrow> Inr (st\<lparr>cmds := (cmds st)(c \<mapsto> cmd\<lparr>swapCount := swapCount cmd - 1\<rparr>)\<rparr>)
                  | Some pDraw \<Rightarrow>
                      swap_complete_found e
                        (st\<lparr>cmds := (cmds st)(c \<mapsto> cmd\<lparr>swapCount := swapCount cmd - 1\<rparr>)\<rparr>)
                        (cmd\<lparr>swapCount := swapCount cmd - 1\<rparr>) pDraw)
            else Inr (st\<lparr>cmds := (cmds st)(c \<mapsto> cmd\<lparr>swapCount := swapCount cmd - 1\<rparr>)\<rparr>)) of
        Inl f \<Rightarrow> Inl f
      | Inr st2 \<Rightarrow> swap_complete_cleanup st2 (cmd\<lparr>swapCount := swapCount cmd - 1\<rparr>) c)"
  using assms by (simp add: OMAPDRI2SwapComplete_def c_dec_def Let_def)

lemma swap_complete_final:
  assumes cmd: "cmds st c = Some cmd"
    and last: "swapCount cmd \<le> 1" "INT_MIN < swapCount cmd"
    and src: "pixmaps st (pSrcPixmap cmd) = Some ps"
    and dst: "pixmaps st (pDstPixmap cmd) = Some pd"
    and type: "cmd_type cmd = DRI2_BLIT_COMPLETE \<or> cmd_type cmd = DRI2_FLIP_COMPLETE"
    and pend: "INT_MIN < pending_flips st"
  shows "\<exists>st'. OMAPDRI2SwapComplete e st c = Inr st' \<and>
     cmds st' = (cmds st)(c := None) \<and>
     pending_flips st' = pending_flips st - 1 \<and>
     (\<forall>q. surface_refs st' q =
         map_option (\<lambda>r. r - of_bool (q = pSrcPixmap cmd) - of_bool (q = pDstPixmap cmd))
           (surface_refs st q)) \<and>
     filter is_DestroyPixmap (trace st') = filter is_DestroyPixmap (trace st) @
       [Ev_DestroyPixmap (pSrcPixmap cmd), Ev_DestroyPixmap (pDstPixmap cmd)]"
proof -
  let ?cmd' = "cmd\<lparr>swapCount := swapCount cmd - 1\<rparr>"
  let ?st1 = "st\<lparr>cmds := (cmds st)(c \<mapsto> ?cmd')\<rparr>"
  let ?mid = "if flags ?cmd' AND OMAP_SWAP_FAIL = 0
              then (case drawables ?st1 (draw_id ?cmd') of
                      None \<Rightarrow> Inr ?st1
                    | Some pDraw \<Rightarrow> swap_complete_found e ?st1 ?cmd' pDraw)
              else Inr ?st1"
  have unfold: "OMAPDRI2SwapComplete e st c =
      (case ?mid of Inl f \<Rightarrow> Inl f | Inr st2 \<Rightarrow> swap_complete_cleanup st2 ?cmd' c)"
    using cmd last by (simp add: OMAPDRI2SwapComplete_def c_dec_def Let_def)
  have src1: "pixmaps ?st1 (pSrcPixmap ?cmd') = Some ps"
    and dst1: "pixmaps ?st1 (pDstPixmap ?cmd') = Some pd"
    and type1: "cmd_type ?cmd' = DRI2_BLIT_COMPLETE \<or> cmd_type ?cmd' = DRI2_FLIP_COMPLETE"
    using src dst type by simp_all
  have "\<exists>st2. ?mid = Inr st2 \<and> cmds st2 = cmds ?st1 \<and>
          pending_flips st2 = pending_flips ?st1 \<and>
          (\<forall>q. surface_refs st2 q = surface_refs ?st1 q) \<and>
          filter is_DestroyPixmap (trace st2) = filter is_DestroyPixmap (trace ?st1)"
  proof (cases "flags ?cmd' AND OMAP_SWAP_FAIL = 0")
    case False
    then show ?thesis by simp
  next
    case True
    show ?thesis
    proof (cases "drawables ?st1 (draw_id ?cmd')")
      case None
      with True show ?thesis by simp
    next
      case (Some pDraw)
      with True swap_complete_found_frame [OF src1 dst1 type1, of e pDraw]
      show ?thesis by simp
    qed
  qed
  then obtain st2 where mid: "?mid = Inr st2" and c2: "cmds st2 = cmds ?st1"
    and p2: "pending_flips st2 = pending_flips ?st1"
    and r2: "\<forall>q. surface_refs st2 q = surface_refs ?st1 q"
    and t2: "filter is_DestroyPixmap (trace st2) = filter is_DestroyPixmap (trace ?st1)"
    by blast
  from r2 src1 have "surface_refs st2 (pSrcPixmap ?cmd') = Some (pix_refcnt ps)"
    by (simp add: surface_refs_def)
  then obtain ps2 where src2: "pixmaps st2 (pSrcPixmap ?cmd') = Some ps2"
    by (auto simp: surface_refs_def)
  from r2 dst1 have "surface_refs st2 (pDstPixmap ?cmd') = Some (pix_refcnt pd)"
    by (simp add: surface_refs_def)
  then obtain pd2 where dst2: "pixmaps st2 (pDstPixmap ?cmd') = Some pd2"
    by (auto simp: surface_refs_def)
  have pend2: "INT_MIN < pending_flips st2" using p2 pend by simp
  from swap_complete_cleanup_live [OF src2 dst2 pend2, of c] obtain st' where
    fin: "swap_complete_cleanup st2 ?cmd' c = Inr st'" and
    c3: "cmds st' = (cmds st2)(c := None)" and
    p3: "pending_flips st' = pending_flips st2 - 1" and
    r3: "\<forall>q. surface_refs st' q =
         map_option (\<lambda>r. r - of_bool (q = pSrcPixmap ?cmd') - of_bool (q = pDstPixmap ?cmd'))
           (surface_refs st2 q)" and
    t3: "trace st' = trace st2 @
           [Ev_DestroyPixmap (pSrcPixmap ?cmd'), Ev_DestroyPixmap (pDstPixmap ?cmd')]"
    by blast
  have "OMAPDRI2SwapComplete e st c = Inr st'"
    unfolding unfold mid using fin by simp
  moreover have "cmds st' = (cmds st)(c := None)" using c3 c2 by simp
  moreover have "pending_flips st' = pending_flips st - 1" using p3 p2 by simp
  moreover have "\<forall>q. surface_refs st' q =
         map_option (\<lambda>r. r - of_bool (q = pSrcPixmap cmd) - of_bool (q = pDstPixmap cmd))
           (surface_refs st q)"
    using r3 r2 by (simp add: surface_refs_def)
  moreover have "filter is_DestroyPixmap (trace st') = filter is_DestroyPixmap (trace st) @
       [Ev_DestroyPixmap (pSrcPixmap cmd), Ev_DestroyPixmap (pDstPixmap cmd)]"
    using t3 t2 by simp
  ultimately show ?thesis by blast
qed

lemma invalidate_scanouts_all:
  "length (invalidate_scanouts scs) = length scs \<and>
   map sc_bo (invalidate_scanouts scs) = map sc_bo scs \<and>
   (\<forall>s\<in>set (invalidate_scanouts scs). \<not> sc_valid s)"
  by (induction scs) auto

lemma validate_scanout_length: "length (validate_scanout scs bo) = length scs"
  by (induction scs) auto

lemma validate_scanout_no_match:
  "\<forall>s\<in>set scs. sc_bo s \<noteq> bo \<Longrightarrow> validate_scanout scs bo = scs"
  by (induction scs) auto

lemma validate_scanout_first_match:
  "\<exists>s\<in>set scs. sc_bo s = bo \<Longrightarrow>
   \<exists>i<length scs. sc_bo (scs ! i) = bo \<and> (\<forall>j<i. sc_bo (scs ! j) \<noteq> bo) \<and>
     validate_scanout scs bo = scs[i := (scs ! i)\<lparr>sc_valid := True\<rparr>]"
proof (induction scs)
  case Nil
  then show ?case by simp
next
  case (Cons s scs)
  show ?case
  proof (cases "sc_bo s = bo")
    case True
    then have "0 < length (s # scs) \<and> sc_bo ((s # scs) ! 0) = bo \<and>
        (\<forall>j<0. sc_bo ((s # scs) ! j) \<noteq> bo) \<and>
        validate_scanout (s # scs) bo = (s # scs)[0 := ((s # scs) ! 0)\<lparr>sc_valid := True\<rparr>]"
      by simp
    then show ?thesis by blast
  next
    case False
    with Cons.prems have "\<exists>s\<in>set scs. sc_bo s = bo" by auto
    from Cons.IH [OF this] obtain i where
      i: "i < length scs" "sc_bo (scs ! i) = bo" "\<forall>j<i. sc_bo (scs ! j) \<noteq> bo"
        "validate_scanout scs bo = scs[i := (scs ! i)\<lparr>sc_valid := True\<rparr>]"
      by blast
    have "\<forall>j<Suc i. sc_bo ((s # scs) ! j) \<noteq> bo"
      using False i(3) by (auto simp: less_Suc_eq_0_disj)
    with i False have "Suc i < length (s # scs) \<and> sc_bo ((s # scs) ! Suc i) = bo \<and>
        (\<forall>j<Suc i. sc_bo ((s # scs) ! j) \<noteq> bo) \<and>
        validate_scanout (s # scs) bo = (s # scs)[Suc i := ((s # scs) ! Suc i)\<lparr>sc_valid := True\<rparr>]"
      by simp
    then show ?thesis by blast
  qed
qed

lemma swap_complete_found_blit:
  assumes "cmd_type cmd = DRI2_BLIT_COMPLETE"
  shows "swap_complete_found e st cmd pDraw =
     Inr (st\<lparr>trace := trace st @ [Ev_DRI2SwapComplete (client cmd) pDraw DRI2_BLIT_COMPLETE
                                     (func cmd) (data cmd)],
             scanouts := invalidate_scanouts (scanouts st)\<rparr>)"
  using assms by (simp add: swap_complete_found_def log_ev_def Let_def)

lemma swap_complete_found_flip:
  assumes src: "pixmaps st (pSrcPixmap cmd) = Some ps"
    and dst: "pixmaps st (pDstPixmap cmd) = Some pd"
    and flip: "cmd_type cmd = DRI2_FLIP_COMPLETE"
  shows "\<exists>st'. swap_complete_found e st cmd pDraw = Inr st' \<and>
     cmds st' = cmds st \<and> pending_flips st' = pending_flips st \<and>
     (\<forall>q. surface_refs st' q = surface_refs st q) \<and>
     map_option pix_bo (pixmaps st' (pSrcPixmap cmd)) =
       Some (if flags cmd AND OMAP_SWAP_FAKE_FLIP = 0 then pix_bo pd else pix_bo ps) \<and>
     map_option pix_bo (pixmaps st' (pDstPixmap cmd)) =
       Some (if flags cmd AND OMAP_SWAP_FAKE_FLIP = 0 then pix_bo ps else pix_bo pd) \<and>
     scanouts st' =
       (if flags cmd AND OMAP_SWAP_FAKE_FLIP = 0
        then drmmode_scanout_set e (validate_scanout (scanouts st) (pix_bo ps))
               (cmd_x cmd) (cmd_y cmd) (pix_bo ps)
        else validate_scanout (scanouts st) (pix_bo pd)) \<and>
     trace st' = trace st @
       (if flags cmd AND OMAP_SWAP_FAKE_FLIP = 0
        then [Ev_OMAPPixmapExchange (pSrcPixmap cmd) (pDstPixmap cmd)] else []) @
       Ev_DRI2SwapComplete (client cmd) pDraw DRI2_FLIP_COMPLETE (func cmd) (data cmd) #
       (if flags cmd AND OMAP_SWAP_FAKE_FLIP = 0
        then [Ev_scanout_set (cmd_x cmd) (cmd_y cmd) (pix_bo ps)] else [])"
  using assms
  by (auto simp: swap_complete_found_def OMAPPixmapExchange_def log_ev_def Let_def
      surface_refs_def)

lemma ex_cmd_live:
  "cmds (st_cmd cmd) 5 = Some cmd"
  "pixmaps (st_cmd cmd) 10 = Some \<lparr>pix_refcnt = 2, pix_bo = Some 1, pix_serialNumber = 0\<rparr>"
  "pixmaps (st_cmd cmd) 11 = Some \<lparr>pix_refcnt = 2, pix_bo = Some 2, pix_serialNumber = 0\<rparr>"
  "drawables (st_cmd cmd) 40 = Some ex_draw"
  "drawables (st_cmd cmd) 41 = None"
  "pending_flips (st_cmd cmd) = 1"
  "scanouts (st_cmd cmd) = [\<lparr>sc_bo = Some 2, sc_valid = True, sc_x = 0, sc_y = 0\<rparr>,
                           \<lparr>sc_bo = Some 1, sc_valid = False, sc_x = 64, sc_y = 0\<rparr>]"
  "trace (st_cmd cmd) = []"
  by (simp_all add: st_cmd_def ex_swap_state_def)

lemmas swap_complete_eval =
  OMAPDRI2SwapComplete_def swap_complete_found_def swap_complete_cleanup_def
  OMAPPixmapExchange_def DestroyPixmap_def c_dec_def INT_MIN_def log_ev_def Let_def
  OMAP_SWAP_FAIL_def OMAP_SWAP_FAKE_FLIP_def ex_cmd_live ex_cmd_def ex_env_def

text \<open>C1. A command with countdown N \<ge> 1, live surfaces and type blit or flip: each of the
  first N - 1 signals only decrements the countdown; the N-th signal frees the command,
  decrements the counter of pending flips by one and releases one reference of the source
  and one of the destination surface (one call of \<^verbatim>\<open>DestroyPixmap\<close> for each),
  whatever the failure flag and whether or not the drawable is still found; a further
  signal would find the command freed.\<close>

theorem swap_complete_countdown:
  assumes cmd: "cmds st c = Some cmd"
    and count: "swapCount cmd = int N" and pos: "1 \<le> N"
    and src: "pixmaps st (pSrcPixmap cmd) = Some ps"
    and dst: "pixmaps st (pDstPixmap cmd) = Some pd"
    and type: "cmd_type cmd = DRI2_BLIT_COMPLETE \<or> cmd_type cmd = DRI2_FLIP_COMPLETE"
    and pend: "INT_MIN < pending_flips st"
  shows "(\<forall>k<N. swap_complete_n e st c k =
            Inr (st\<lparr>cmds := (cmds st)(c \<mapsto> cmd\<lparr>swapCount := int N - int k\<rparr>)\<rparr>)) \<and>
         (\<exists>st'. swap_complete_n e st c N = Inr st' \<and>
            cmds st' = (cmds st)(c := None) \<and>
            pending_flips st' = pending_flips st - 1 \<and>
            (\<forall>q. surface_refs st' q =
               map_option (\<lambda>r. r - of_bool (q = pSrcPixmap cmd) - of_bool (q = pDstPixmap cmd))
                 (surface_refs st q)) \<and>
            filter is_DestroyPixmap (trace st') = filter is_DestroyPixmap (trace st) @
              [Ev_DestroyPixmap (pSrcPixmap cmd), Ev_DestroyPixmap (pDstPixmap cmd)] \<and>
            swap_complete_n e st c (Suc N) = Inl BadPointer)"
proof -
  have pending: "swap_complete_n e st c k =
            Inr (st\<lparr>cmds := (cmds st)(c \<mapsto> cmd\<lparr>swapCount := int N - int k\<rparr>)\<rparr>)"
    if "k < N" for k
    using swap_complete_n_pending [OF cmd, of k e] that count by simp
  let ?cmd1 = "cmd\<lparr>swapCount := int N - int (N - 1)\<rparr>"
  let ?st1 = "st\<lparr>cmds := (cmds st)(c \<mapsto> ?cmd1)\<rparr>"
  have before: "swap_complete_n e st c (N - 1) = Inr ?st1"
    using pending [of "N - 1"] pos by simp
  have "cmds ?st1 c = Some ?cmd1" and "swapCount ?cmd1 \<le> 1" and "INT_MIN < swapCount ?cmd1"
    and "pixmaps ?st1 (pSrcPixmap ?cmd1) = Some ps"
    and "pixmaps ?st1 (pDstPixmap ?cmd1) = Some pd"
    and "cmd_type ?cmd1 = DRI2_BLIT_COMPLETE \<or> cmd_type ?cmd1 = DRI2_FLIP_COMPLETE"
    and "INT_MIN < pending_flips ?st1"
    using pos src dst type pend by (simp_all add: INT_MIN_def)
  from swap_complete_final [OF this, of e] obtain st' where
    last: "OMAPDRI2SwapComplete e ?st1 c = Inr st'" and
    c': "cmds st' = (cmds ?st1)(c := None)" and
    p': "pending_flips st' = pending_flips ?st1 - 1" and
    r': "\<forall>q. surface_refs st' q =
         map_option (\<lambda>r. r - of_bool (q = pSrcPixmap ?cmd1) - of_bool (q = pDstPixmap ?cmd1))
           (surface_refs ?st1 q)" and
    t': "filter is_DestroyPixmap (trace st') = filter is_DestroyPixmap (trace ?st1) @
           [Ev_DestroyPixmap (pSrcPixmap ?cmd1), Ev_DestroyPixmap (pDstPixmap ?cmd1)]"
    by blast
  have "swap_complete_n e st c (N - 1 + 1) = swap_complete_n e ?st1 c 1"
    by (rule swap_complete_n_add [OF before])
  with last pos have atN: "swap_complete_n e st c N = Inr st'" by simp
  have "swap_complete_n e st c (N + 1) = swap_complete_n e st' c 1"
    by (rule swap_complete_n_add [OF atN])
  moreover have "cmds st' c = None" using c' by simp
  ultimately have after: "swap_complete_n e st c (Suc N) = Inl BadPointer"
    by (simp add: OMAPDRI2SwapComplete_def)
  have "cmds st' = (cmds st)(c := None)" using c' by simp
  moreover have "pending_flips st' = pending_flips st - 1" using p' by simp
  moreover have "\<forall>q. surface_refs st' q =
               map_option (\<lambda>r. r - of_bool (q = pSrcPixmap cmd) - of_bool (q = pDstPixmap cmd))
                 (surface_refs st q)"
    using r' by (simp add: surface_refs_def)
  moreover have "filter is_DestroyPixmap (trace st') = filter is_DestroyPixmap (trace st) @
              [Ev_DestroyPixmap (pSrcPixmap cmd), Ev_DestroyPixmap (pDstPixmap cmd)]"
    using t' by simp
  ultimately show ?thesis using pending atN after by blast
qed

theorem swap_complete_countdown_witness:
  "swap_complete_n ex_env (st_cmd ex_cmd) 5 1 = Inr (st_cmd (ex_cmd\<lparr>swapCount := 1\<rparr>)) \<and>
   (\<exists>st'. swap_complete_n ex_env (st_cmd ex_cmd) 5 2 = Inr st' \<and>
      cmds st' 5 = None \<and> pending_flips st' = 0 \<and>
      surface_refs st' 10 = Some 1 \<and> surface_refs st' 11 = Some 1) \<and>
   swap_complete_n ex_env (st_cmd ex_cmd) 5 3 = Inl BadPointer"
proof -
  have count: "swapCount ex_cmd = int 2" and pos: "1 \<le> (2::nat)"
    and src: "pixmaps (st_cmd ex_cmd) (pSrcPixmap ex_cmd) =
                Some \<lparr>pix_refcnt = 2, pix_bo = Some 1, pix_serialNumber = 0\<rparr>"
    and dst: "pixmaps (st_cmd ex_cmd) (pDstPixmap ex_cmd) =
                Some \<lparr>pix_refcnt = 2, pix_bo = Some 2, pix_serialNumber = 0\<rparr>"
    and type: "cmd_type ex_cmd = DRI2_BLIT_COMPLETE \<or> cmd_type ex_cmd = DRI2_FLIP_COMPLETE"
    and pend: "INT_MIN < pending_flips (st_cmd ex_cmd)"
    by (simp_all add: ex_cmd_live ex_cmd_def INT_MIN_def)
  note run = swap_complete_countdown [OF ex_cmd_live(1) count pos src dst type pend, of ex_env]
  from run have pending: "\<forall>k<2. swap_complete_n ex_env (st_cmd ex_cmd) 5 k =
      Inr ((st_cmd ex_cmd)\<lparr>cmds := (cmds (st_cmd ex_cmd))(5 \<mapsto> ex_cmd\<lparr>swapCount := int 2 - int k\<rparr>)\<rparr>)"
    by (rule conjunct1)
  have "(1::nat) < 2" by simp
  with pending have "swap_complete_n ex_env (st_cmd ex_cmd) 5 1 =
      Inr ((st_cmd ex_cmd)\<lparr>cmds := (cmds (st_cmd ex_cmd))(5 \<mapsto> ex_cmd\<lparr>swapCount := int 2 - int 1\<rparr>)\<rparr>)"
    by blast
  then have first: "swap_complete_n ex_env (st_cmd ex_cmd) 5 1 = Inr (st_cmd (ex_cmd\<lparr>swapCount := 1\<rparr>))"
    by (simp add: st_cmd_def del: swap_complete_n.simps)
  from run obtain st' where
    atN: "swap_complete_n ex_env (st_cmd ex_cmd) 5 2 = Inr st'" and
    c': "cmds st' = (cmds (st_cmd ex_cmd))(5 := None)" and
    p': "pending_flips st' = pending_flips (st_cmd ex_cmd) - 1" and
    r': "\<forall>q. surface_refs st' q =
         map_option (\<lambda>r. r - of_bool (q = pSrcPixmap ex_cmd) - of_bool (q = pDstPixmap ex_cmd))
           (surface_refs (st_cmd ex_cmd) q)" and
    after: "swap_complete_n ex_env (st_cmd ex_cmd) 5 (Suc 2) = Inl BadPointer"
    by blast
  have "cmds st' 5 = None" using c' by simp
  moreover have "pending_flips st' = 0" using p' by (simp add: ex_cmd_live)
  moreover have "surface_refs st' 10 = Some 1" and "surface_refs st' 11 = Some 1"
    using r' by (simp_all add: ex_cmd_live surface_refs_def ex_cmd_def)
  ultimately have second: "\<exists>st'. swap_complete_n ex_env (st_cmd ex_cmd) 5 2 = Inr st' \<and>
      cmds st' 5 = None \<and> pending_flips st' = 0 \<and>
      surface_refs st' 10 = Some 1 \<and> surface_refs st' 11 = Some 1"
    using atN by blast
  have three: "Suc 2 = (3::nat)" by simp
  note after3 = after [unfolded three]
  from first second after3 show ?thesis by blast
qed

text \<open>C3, as amended. Finalization of a flip completion that has not failed and whose
  drawable is found: the two surfaces' buffer objects are exchanged exactly when the
  command is not a fake flip; of the slots, the first whose buffer object is the
  destination's (after the exchange) is marked valid and no other slot changes; and
  \<^verbatim>\<open>drmmode_scanout_set\<close> is called with the command's position and that buffer object
  exactly when the command is not a fake flip.\<close>

theorem swap_complete_flip:
  assumes cmd: "cmds st c = Some cmd"
    and last: "swapCount cmd \<le> 1" "INT_MIN < swapCount cmd"
    and flip: "cmd_type cmd = DRI2_FLIP_COMPLETE"
    and ok: "flags cmd AND OMAP_SWAP_FAIL = 0"
    and found: "drawables st (draw_id cmd) = Some pDraw"
    and src: "pixmaps st (pSrcPixmap cmd) = Some ps"
    and dst: "pixmaps st (pDstPixmap cmd) = Some pd"
    and pend: "INT_MIN < pending_flips st"
  shows "\<exists>st' new_dst V.
     OMAPDRI2SwapComplete e st c = Inr st' \<and>
     new_dst = (if flags cmd AND OMAP_SWAP_FAKE_FLIP = 0 then pix_bo ps else pix_bo pd) \<and>
     surface_bo (Inr st') (pDstPixmap cmd) = Some new_dst \<and>
     surface_bo (Inr st') (pSrcPixmap cmd) =
       Some (if flags cmd AND OMAP_SWAP_FAKE_FLIP = 0 then pix_bo pd else pix_bo ps) \<and>
     V = validate_scanout (scanouts st) new_dst \<and>
     length V = length (scanouts st) \<and>
     ((\<forall>s\<in>set (scanouts st). sc_bo s \<noteq> new_dst) \<longrightarrow> V = scanouts st) \<and>
     ((\<exists>s\<in>set (scanouts st). sc_bo s = new_dst) \<longrightarrow>
        (\<exists>i<length (scanouts st). sc_bo (scanouts st ! i) = new_dst \<and>
           (\<forall>j<i. sc_bo (scanouts st ! j) \<noteq> new_dst) \<and>
           V = (scanouts st)[i := (scanouts st ! i)\<lparr>sc_valid := True\<rparr>])) \<and>
     scanouts st' =
       (if flags cmd AND OMAP_SWAP_FAKE_FLIP = 0
        then drmmode_scanout_set e V (cmd_x cmd) (cmd_y cmd) new_dst else V) \<and>
     trace st' = trace st @
       (if flags cmd AND OMAP_SWAP_FAKE_FLIP = 0
        then [Ev_OMAPPixmapExchange (pSrcPixmap cmd) (pDstPixmap cmd)] else []) @
       Ev_DRI2SwapComplete (client cmd) pDraw DRI2_FLIP_COMPLETE (func cmd) (data cmd) #
       (if flags cmd AND OMAP_SWAP_FAKE_FLIP = 0
        then [Ev_scanout_set (cmd_x cmd) (cmd_y cmd) new_dst] else []) @
       [Ev_DestroyPixmap (pSrcPixmap cmd), Ev_DestroyPixmap (pDstPixmap cmd)]"
proof -
  let ?cmd' = "cmd\<lparr>swapCount := swapCount cmd - 1\<rparr>"
  let ?st1 = "st\<lparr>cmds := (cmds st)(c \<mapsto> ?cmd')\<rparr>"
  let ?new = "if flags cmd AND OMAP_SWAP_FAKE_FLIP = 0 then pix_bo ps else pix_bo pd"
  let ?V = "validate_scanout (scanouts st) ?new"
  have unfold: "OMAPDRI2SwapComplete e st c =
      (case swap_complete_found e ?st1 ?cmd' pDraw of
         Inl f \<Rightarrow> Inl f
       | Inr st2 \<Rightarrow> swap_complete_cleanup st2 ?cmd' c)"
    using swap_complete_last [OF cmd last, of e] ok found by simp
  have "pixmaps ?st1 (pSrcPixmap ?cmd') = Some ps" and "pixmaps ?st1 (pDstPixmap ?cmd') = Some pd"
    and "cmd_type ?cmd' = DRI2_FLIP_COMPLETE"
    using src dst flip by simp_all
  from swap_complete_found_flip [OF this, of e pDraw] obtain st2 where
    mid: "swap_complete_found e ?st1 ?cmd' pDraw = Inr st2" and
    p2': "pending_flips st2 = pending_flips ?st1" and
    bs2': "map_option pix_bo (pixmaps st2 (pSrcPixmap ?cmd')) =
       Some (if flags ?cmd' AND OMAP_SWAP_FAKE_FLIP = 0 then pix_bo pd else pix_bo ps)" and
    bd2': "map_option pix_bo (pixmaps st2 (pDstPixmap ?cmd')) =
       Some (if flags ?cmd' AND OMAP_SWAP_FAKE_FLIP = 0 then pix_bo ps else pix_bo pd)" and
    sc2': "scanouts st2 =
       (if flags ?cmd' AND OMAP_SWAP_FAKE_FLIP = 0
        then drmmode_scanout_set e (validate_scanout (scanouts ?st1) (pix_bo ps))
               (cmd_x ?cmd') (cmd_y ?cmd') (pix_bo ps)
        else validate_scanout (scanouts ?st1) (pix_bo pd))" and
    tr2': "trace st2 = trace ?st1 @
       (if flags ?cmd' AND OMAP_SWAP_FAKE_FLIP = 0
        then [Ev_OMAPPixmapExchange (pSrcPixmap ?cmd') (pDstPixmap ?cmd')] else []) @
       Ev_DRI2SwapComplete (client ?cmd') pDraw DRI2_FLIP_COMPLETE (func ?cmd') (data ?cmd') #
       (if flags ?cmd' AND OMAP_SWAP_FAKE_FLIP = 0
        then [Ev_scanout_set (cmd_x ?cmd') (cmd_y ?cmd') (pix_bo ps)] else [])"
    by blast
  have p2: "pending_flips st2 = pending_flips st" using p2' by simp
  have bs2: "map_option pix_bo (pixmaps st2 (pSrcPixmap cmd)) =
       Some (if flags cmd AND OMAP_SWAP_FAKE_FLIP = 0 then pix_bo pd else pix_bo ps)"
    using bs2' by simp
  have bd2: "map_option pix_bo (pixmaps st2 (pDstPixmap cmd)) = Some ?new"
    using bd2' by simp
  have sc2: "scanouts st2 =
       (if flags cmd AND OMAP_SWAP_FAKE_FLIP = 0
        then drmmode_scanout_set e ?V (cmd_x cmd) (cmd_y cmd) ?new else ?V)"
    using sc2' by simp
  have tr2: "trace st2 = trace st @
       (if flags cmd AND OMAP_SWAP_FAKE_FLIP = 0
        then [Ev_OMAPPixmapExchange (pSrcPixmap cmd) (pDstPixmap cmd)] else []) @
       Ev_DRI2SwapComplete (client cmd) pDraw DRI2_FLIP_COMPLETE (func cmd) (data cmd) #
       (if flags cmd AND OMAP_SWAP_FAKE_FLIP = 0
        then [Ev_scanout_set (cmd_x cmd) (cmd_y cmd) ?new] else [])"
    using tr2' by simp
  from bs2 obtain ps2 where src2: "pixmaps st2 (pSrcPixmap ?cmd') = Some ps2" by auto
  from bd2 obtain pd2 where dst2: "pixmaps st2 (pDstPixmap ?cmd') = Some pd2" by auto
  have pend2: "INT_MIN < pending_flips st2" using p2 pend by simp
  from swap_complete_cleanup_live [OF src2 dst2 pend2, of c] obtain st' where
    fin: "swap_complete_cleanup st2 ?cmd' c = Inr st'" and
    b3: "\<forall>q. map_option pix_bo (pixmaps st' q) = map_option pix_bo (pixmaps st2 q)" and
    sc3: "scanouts st' = scanouts st2" and
    tr3: "trace st' = trace st2 @
            [Ev_DestroyPixmap (pSrcPixmap ?cmd'), Ev_DestroyPixmap (pDstPixmap ?cmd')]"
    by blast
  have run: "OMAPDRI2SwapComplete e st c = Inr st'"
    unfolding unfold mid using fin by simp
  have bd: "surface_bo (Inr st') (pDstPixmap cmd) = Some ?new"
    using b3 bd2 by (simp add: surface_bo_def)
  have bs: "surface_bo (Inr st') (pSrcPixmap cmd) =
       Some (if flags cmd AND OMAP_SWAP_FAKE_FLIP = 0 then pix_bo pd else pix_bo ps)"
    using b3 bs2 by (simp add: surface_bo_def)
  have len: "length ?V = length (scanouts st)"
    by (rule validate_scanout_length)
  have none: "(\<forall>s\<in>set (scanouts st). sc_bo s \<noteq> ?new) \<longrightarrow> ?V = scanouts st"
    using validate_scanout_no_match [of "scanouts st" ?new] by blast
  have some: "(\<exists>s\<in>set (scanouts st). sc_bo s = ?new) \<longrightarrow>
        (\<exists>i<length (scanouts st). sc_bo (scanouts st ! i) = ?new \<and>
           (\<forall>j<i. sc_bo (scanouts st ! j) \<noteq> ?new) \<and>
           ?V = (scanouts st)[i := (scanouts st ! i)\<lparr>sc_valid := True\<rparr>])"
    using validate_scanout_first_match [of "scanouts st" ?new] by blast
  have sc: "scanouts st' =
       (if flags cmd AND OMAP_SWAP_FAKE_FLIP = 0
        then drmmode_scanout_set e ?V (cmd_x cmd) (cmd_y cmd) ?new else ?V)"
    using sc3 sc2 by simp
  have tr: "trace st' = trace st @
       (if flags cmd AND OMAP_SWAP_FAKE_FLIP = 0
        then [Ev_OMAPPixmapExchange (pSrcPixmap cmd) (pDstPixmap cmd)] else []) @
       Ev_DRI2SwapComplete (client cmd) pDraw DRI2_FLIP_COMPLETE (func cmd) (data cmd) #
       (if flags cmd AND OMAP_SWAP_FAKE_FLIP = 0
        then [Ev_scanout_set (cmd_x cmd) (cmd_y cmd) ?new] else []) @
       [Ev_DestroyPixmap (pSrcPixmap cmd), Ev_DestroyPixmap (pDstPixmap cmd)]"
    using tr3 tr2 by simp
  from run bd bs len none some sc tr show ?thesis by blast
qed

theorem swap_complete_flip_witness:
  "surface_bo (Inr (st_cmd ex_cmd_last)) 10 = Some (Some 1) \<and>
   surface_bo (Inr (st_cmd ex_cmd_last)) 11 = Some (Some 2) \<and>
   surface_bo (OMAPDRI2SwapComplete ex_env (st_cmd ex_cmd_last) 5) 10 = Some (Some 2) \<and>
   surface_bo (OMAPDRI2SwapComplete ex_env (st_cmd ex_cmd_last) 5) 11 = Some (Some 1) \<and>
   slots_valid (Inr (st_cmd ex_cmd_last)) = Some [True, False] \<and>
   slots_valid (OMAPDRI2SwapComplete ex_env (st_cmd ex_cmd_last) 5) = Some [True, True]"
proof -
  let ?st = "st_cmd ex_cmd_last"
  let ?ps = "\<lparr>pix_refcnt = 2, pix_bo = Some 1, pix_serialNumber = 0\<rparr>"
  let ?pd = "\<lparr>pix_refcnt = 2, pix_bo = Some 2, pix_serialNumber = 0\<rparr>"
  have last: "swapCount ex_cmd_last \<le> 1" "INT_MIN < swapCount ex_cmd_last"
    and flip: "cmd_type ex_cmd_last = DRI2_FLIP_COMPLETE"
    and ok: "flags ex_cmd_last AND OMAP_SWAP_FAIL = 0"
    and real: "flags ex_cmd_last AND OMAP_SWAP_FAKE_FLIP = 0"
    and found: "drawables ?st (draw_id ex_cmd_last) = Some ex_draw"
    and src: "pixmaps ?st (pSrcPixmap ex_cmd_last) = Some ?ps"
    and dst: "pixmaps ?st (pDstPixmap ex_cmd_last) = Some ?pd"
    and pend: "INT_MIN < pending_flips ?st"
    by (simp_all add: ex_cmd_live ex_cmd_last_def ex_cmd_def INT_MIN_def)
  from swap_complete_flip [OF ex_cmd_live(1) last flip ok found src dst pend, of ex_env]
  obtain st' new_dst V where
    run: "OMAPDRI2SwapComplete ex_env ?st 5 = Inr st'" and
    new: "new_dst = (if flags ex_cmd_last AND OMAP_SWAP_FAKE_FLIP = 0 then pix_bo ?ps else pix_bo ?pd)" and
    bd: "surface_bo (Inr st') (pDstPixmap ex_cmd_last) = Some new_dst" and
    bs: "surface_bo (Inr st') (pSrcPixmap ex_cmd_last) =
       Some (if flags ex_cmd_last AND OMAP_SWAP_FAKE_FLIP = 0 then pix_bo ?pd else pix_bo ?ps)" and
    V: "V = validate_scanout (scanouts ?st) new_dst" and
    sc: "scanouts st' =
       (if flags ex_cmd_last AND OMAP_SWAP_FAKE_FLIP = 0
        then drmmode_scanout_set ex_env V (cmd_x ex_cmd_last) (cmd_y ex_cmd_last) new_dst else V)"
    by blast
  from new real have new_dst: "new_dst = Some 1" by simp
  have "surface_bo (Inr st') 11 = Some (Some 1)"
    using bd new_dst by (simp add: ex_cmd_last_def ex_cmd_def)
  moreover have "surface_bo (Inr st') 10 = Some (Some 2)"
    using bs real by (simp add: ex_cmd_last_def ex_cmd_def)
  moreover have "slots_valid (Inr st') = Some [True, True]"
    using sc real V new_dst by (simp add: slots_valid_def ex_cmd_live ex_env_def)
  moreover have "surface_bo (Inr ?st) 10 = Some (Some 1)" "surface_bo (Inr ?st) 11 = Some (Some 2)"
    "slots_valid (Inr ?st) = Some [True, False]"
    by (simp_all add: surface_bo_def slots_valid_def ex_cmd_live)
  ultimately show ?thesis unfolding run by simp
qed

text \<open>C3 as stated fails for a fake flip: the command is a flip completion, has not failed,
  its drawable is found, and after finalization the two surfaces have the buffer objects
  they had before.\<close>

theorem swap_complete_fake_flip_counterexample:
  "cmds (st_cmd ex_cmd_fake) 5 = Some ex_cmd_fake \<and>
   cmd_type ex_cmd_fake = DRI2_FLIP_COMPLETE \<and>
   flags ex_cmd_fake AND OMAP_SWAP_FAIL = 0 \<and>
   drawables (st_cmd ex_cmd_fake) (draw_id ex_cmd_fake) = Some ex_draw \<and>
   surface_bo (Inr (st_cmd ex_cmd_fake)) (pSrcPixmap ex_cmd_fake) = Some (Some 1) \<and>
   surface_bo (Inr (st_cmd ex_cmd_fake)) (pDstPixmap ex_cmd_fake) = Some (Some 2) \<and>
   surface_bo (OMAPDRI2SwapComplete ex_env (st_cmd ex_cmd_fake) 5) (pSrcPixmap ex_cmd_fake) = Some (Some 1) \<and>
   surface_bo (OMAPDRI2SwapComplete ex_env (st_cmd ex_cmd_fake) 5) (pDstPixmap ex_cmd_fake) = Some (Some 2) \<and>
   trace_of (OMAPDRI2SwapComplete ex_env (st_cmd ex_cmd_fake) 5) =
     Some [Ev_DRI2SwapComplete 1 ex_draw DRI2_FLIP_COMPLETE 0 0,
           Ev_DestroyPixmap 10, Ev_DestroyPixmap 11]"
  by (simp add: ex_cmd_fake_def surface_bo_def trace_of_def swap_complete_eval)

subsection \<open>Scheduling a swap\<close>

lemma omap_bo_del_frame:
  "omap_bo_del st bo r = Inr st' \<Longrightarrow>
   pixmaps st' = pixmaps st \<and> pending_flips st' = pending_flips st \<and>
   filter is_flip_or_blit (trace st') = filter is_flip_or_blit (trace st)"
  by (auto simp: omap_bo_del_def log_ev_def Let_def split: option.splits if_splits)

lemma omap_bo_unreference_frame:
  "omap_bo_unreference st bo r = Inr st' \<Longrightarrow>
   pixmaps st' = pixmaps st \<and> pending_flips st' = pending_flips st \<and>
   filter is_flip_or_blit (trace st') = filter is_flip_or_blit (trace st)"
  by (auto simp: omap_bo_unreference_def Let_def split: option.splits if_splits
      dest!: omap_bo_del_frame)

lemma omap_bo_reference_frame:
  "omap_bo_reference st bo = Inr st' \<Longrightarrow>
   pixmaps st' = pixmaps st \<and> pending_flips st' = pending_flips st \<and> trace st' = trace st"
  by (auto simp: omap_bo_reference_def split: option.splits if_splits sum.splits)

lemma swap_rebind_frame:
  assumes "swap_rebind e st pDraw dst new_canflip = Inr st'"
  shows "pending_flips st' = pending_flips st \<and>
     (\<forall>q. surface_refs st' q = surface_refs st q) \<and>
     filter is_flip_or_blit (trace st') = filter is_flip_or_blit (trace st)"
  using assms
  by (auto simp: swap_rebind_def Let_def surface_refs_def
      split: option.splits sum.splits if_splits
      dest!: omap_bo_reference_frame omap_bo_unreference_frame)

lemma swap_new_canflip_cmds:
  "swap_new_canflip e (st\<lparr>cmds := x\<rparr>) pDraw src = swap_new_canflip e st pDraw src"
  by (simp add: swap_new_canflip_def deref_bo_def split: option.splits)

lemma schedule_swap_at_mode_switch:
  assumes src: "bufs st pSrcBuffer = Some src" and dst: "bufs st pDstBuffer = Some dst"
    and c: "calloc_cmd e = Some c"
    and eligible: "swap_new_canflip e st pDraw src = Inr new_canflip"
    and fails: "\<not> (if new_canflip \<and> \<not> has_resized st then drmmode_set_flip_mode e
                    else drmmode_set_blit_mode e)"
  shows "OMAPDRI2ScheduleSwap e st cl pDraw pDstBuffer pSrcBuffer fn dt =
      (case swap_rebind e
              (st\<lparr>cmds := (cmds st)(c \<mapsto>
                 \<lparr>cmd_type = DRI2_TYPE_UNSET, client = cl, draw_id = draw_xid pDraw,
                  pDstPixmap = draw2pix (dri2draw pDraw dst),
                  pSrcPixmap = draw2pix (dri2draw pDraw src),
                  func = fn, swapCount = 0, flags = 0,
                  cmd_x = draw_x pDraw, cmd_y = draw_y pDraw, data = dt\<rparr>)\<rparr>)
              pDraw dst new_canflip of
         Inl f \<Rightarrow> Inl f
       | Inr st1 \<Rightarrow>
           Inr (False, log_ev st1 (if new_canflip \<and> \<not> has_resized st then Ev_set_flip_mode
                                   else Ev_set_blit_mode)))"
  using assms
  by (auto simp: OMAPDRI2ScheduleSwap_def Let_def swap_new_canflip_cmds split: sum.splits)

lemma ex_swap_live:
  "bufs ex_swap_state 20 = Some \<lparr>attachment = 1, pPixmap = 10, previous_canflip = - 1\<rparr>"
  "bufs ex_swap_state 21 = Some \<lparr>attachment = 0, pPixmap = 11, previous_canflip = - 1\<rparr>"
  "pending_flips ex_swap_state = 1"
  "surface_refs ex_swap_state 10 = Some 2"
  "surface_refs ex_swap_state 11 = Some 2"
  "trace ex_swap_state = []"
  "has_resized ex_swap_state = False"
  by (simp_all add: ex_swap_state_def surface_refs_def)

text \<open>C5. When the switch of the mode fails (to flip mode where the swap is eligible for a
  flip and no resize is pending, to blit mode otherwise), a call that returns has returned
  FALSE in the state in which the switch was attempted: no surface has gained a
  reference, the counter of pending flips is as before, and no flip or copy has been
  requested. And the call does return so whenever the rebinding before the switch has
  gone through without a fault.\<close>

theorem schedule_swap_mode_switch_fails:
  assumes src: "bufs st pSrcBuffer = Some src"
    and eligible: "swap_new_canflip e st pDraw src = Inr new_canflip"
    and fails: "\<not> (if new_canflip \<and> \<not> has_resized st then drmmode_set_flip_mode e
                    else drmmode_set_blit_mode e)"
  shows "(\<forall>r st'. OMAPDRI2ScheduleSwap e st cl pDraw pDstBuffer pSrcBuffer fn dt = Inr (r, st') \<longrightarrow>
       \<not> r \<and> pending_flips st' = pending_flips st \<and>
       (\<forall>q. surface_refs st' q = surface_refs st q) \<and>
       filter is_flip_or_blit (trace st') = filter is_flip_or_blit (trace st) \<and>
       (\<exists>dst c cmd st1. bufs st pDstBuffer = Some dst \<and> calloc_cmd e = Some c \<and>
          swap_rebind e (st\<lparr>cmds := (cmds st)(c \<mapsto> cmd)\<rparr>) pDraw dst new_canflip = Inr st1 \<and>
          st' = log_ev st1 (if new_canflip \<and> \<not> has_resized st then Ev_set_flip_mode
                            else Ev_set_blit_mode))) \<and>
     (\<forall>dst c st1. bufs st pDstBuffer = Some dst \<longrightarrow> calloc_cmd e = Some c \<longrightarrow>
        swap_rebind e
          (st\<lparr>cmds := (cmds st)(c \<mapsto>
             \<lparr>cmd_type = DRI2_TYPE_UNSET, client = cl, draw_id = draw_xid pDraw,
              pDstPixmap = draw2pix (dri2draw pDraw dst),
              pSrcPixmap = draw2pix (dri2draw pDraw src),
              func = fn, swapCount = 0, flags = 0,
              cmd_x = draw_x pDraw, cmd_y = draw_y pDraw, data = dt\<rparr>)\<rparr>)
          pDraw dst new_canflip = Inr st1 \<longrightarrow>
        OMAPDRI2ScheduleSwap e st cl pDraw pDstBuffer pSrcBuffer fn dt =
          Inr (False, log_ev st1 (if new_canflip \<and> \<not> has_resized st then Ev_set_flip_mode
                                  else Ev_set_blit_mode)))"
proof (intro conjI allI impI)
  fix r st'
  assume run: "OMAPDRI2ScheduleSwap e st cl pDraw pDstBuffer pSrcBuffer fn dt = Inr (r, st')"
  from run src obtain dst c where dst: "bufs st pDstBuffer = Some dst"
    and c: "calloc_cmd e = Some c"
    by (auto simp: OMAPDRI2ScheduleSwap_def split: option.splits)
  let ?cmd = "\<lparr>cmd_type = DRI2_TYPE_UNSET, client = cl, draw_id = draw_xid pDraw,
                pDstPixmap = draw2pix (dri2draw pDraw dst),
                pSrcPixmap = draw2pix (dri2draw pDraw src),
                func = fn, swapCount = 0, flags = 0,
                cmd_x = draw_x pDraw, cmd_y = draw_y pDraw, data = dt\<rparr>"
  let ?st0 = "st\<lparr>cmds := (cmds st)(c \<mapsto> ?cmd)\<rparr>"
  let ?ev = "if new_canflip \<and> \<not> has_resized st then Ev_set_flip_mode else Ev_set_blit_mode"
  from run schedule_swap_at_mode_switch [OF src dst c eligible fails, of cl fn dt]
  obtain st1 where rebind: "swap_rebind e ?st0 pDraw dst new_canflip = Inr st1"
    and res: "r = False" "st' = log_ev st1 ?ev"
    by (auto split: sum.splits)
  from swap_rebind_frame [OF rebind] res
  have frame: "pending_flips st' = pending_flips st"
    "\<forall>q. surface_refs st' q = surface_refs st q"
    "filter is_flip_or_blit (trace st') = filter is_flip_or_blit (trace st)"
    by (simp_all add: log_ev_def surface_refs_def)
  show "\<not> r" using res by simp
  show "pending_flips st' = pending_flips st" by (rule frame)
  show "surface_refs st' q = surface_refs st q" for q using frame by simp
  show "filter is_flip_or_blit (trace st') = filter is_flip_or_blit (trace st)" by (rule frame)
  from res dst c rebind
  show "\<exists>dst c cmd st1. bufs st pDstBuffer = Some dst \<and> calloc_cmd e = Some c \<and>
          swap_rebind e (st\<lparr>cmds := (cmds st)(c \<mapsto> cmd)\<rparr>) pDraw dst new_canflip = Inr st1 \<and>
          st' = log_ev st1 ?ev"
    by blast
next
  fix dst c st1
  assume "bufs st pDstBuffer = Some dst" and "calloc_cmd e = Some c"
    and "swap_rebind e
          (st\<lparr>cmds := (cmds st)(c \<mapsto>
             \<lparr>cmd_type = DRI2_TYPE_UNSET, client = cl, draw_id = draw_xid pDraw,
              pDstPixmap = draw2pix (dri2draw pDraw dst),
              pSrcPixmap = draw2pix (dri2draw pDraw src),
              func = fn, swapCount = 0, flags = 0,
              cmd_x = draw_x pDraw, cmd_y = draw_y pDraw, data = dt\<rparr>)\<rparr>)
          pDraw dst new_canflip = Inr st1"
  with schedule_swap_at_mode_switch [OF src _ _ eligible fails, of pDstBuffer dst c cl fn dt]
  show "OMAPDRI2ScheduleSwap e st cl pDraw pDstBuffer pSrcBuffer fn dt =
          Inr (False, log_ev st1 (if new_canflip \<and> \<not> has_resized st then Ev_set_flip_mode
                                  else Ev_set_blit_mode))"
    by simp
qed

theorem schedule_swap_mode_switch_fails_witness:
  "\<exists>st'. OMAPDRI2ScheduleSwap ex_env_noflip ex_swap_state 1 ex_draw 21 20 0 0 = Inr (False, st') \<and>
     pending_flips st' = 1 \<and> surface_refs st' 10 = Some 2 \<and> surface_refs st' 11 = Some 2 \<and>
     filter is_flip_or_blit (trace st') = []"
proof -
  let ?src = "\<lparr>attachment = 1, pPixmap = 10, previous_canflip = - 1\<rparr>"
  let ?dst = "\<lparr>attachment = 0, pPixmap = 11, previous_canflip = - 1\<rparr>"
  have c: "calloc_cmd ex_env_noflip = Some 5"
    by (simp add: ex_env_noflip_def ex_env_def)
  have eligible: "swap_new_canflip ex_env_noflip ex_swap_state ex_draw ?src = Inr True"
    by (simp add: swap_new_canflip_def deref_bo_def canflip_def omap_bo_width_def
        omap_bo_height_def ex_env_noflip_def ex_env_def ex_swap_state_def ex_draw_def ex_bo_def)
  have fails: "\<not> (if True \<and> \<not> has_resized ex_swap_state then drmmode_set_flip_mode ex_env_noflip
                   else drmmode_set_blit_mode ex_env_noflip)"
    by (simp add: ex_env_noflip_def ex_env_def ex_swap_live)
  have rebind: "\<exists>st1. swap_rebind ex_env_noflip (ex_swap_state\<lparr>cmds := x\<rparr>) ex_draw ?dst True = Inr st1"
    for x
    by (simp add: swap_rebind_def omap_bo_reference_def omap_bo_unreference_def c_inc_def
        INT_MAX_def Let_def ex_env_noflip_def ex_env_def ex_swap_state_def ex_draw_def ex_bo_def)
  let ?cmds = "(cmds ex_swap_state)(5 \<mapsto>
                 \<lparr>cmd_type = DRI2_TYPE_UNSET, client = 1, draw_id = draw_xid ex_draw,
                  pDstPixmap = draw2pix (dri2draw ex_draw ?dst),
                  pSrcPixmap = draw2pix (dri2draw ex_draw ?src),
                  func = 0, swapCount = 0, flags = 0,
                  cmd_x = draw_x ex_draw, cmd_y = draw_y ex_draw, data = 0\<rparr>)"
  from rebind [of ?cmds] obtain st1 where
    rebind1: "swap_rebind ex_env_noflip (ex_swap_state\<lparr>cmds := ?cmds\<rparr>) ex_draw ?dst True = Inr st1"
    by blast
  note main = schedule_swap_mode_switch_fails [OF ex_swap_live(1) eligible fails,
      of 1 21 0 0]
  from main rebind1 ex_swap_live(2) c
  have run: "OMAPDRI2ScheduleSwap ex_env_noflip ex_swap_state 1 ex_draw 21 20 0 0 =
      Inr (False, log_ev st1 (if True \<and> \<not> has_resized ex_swap_state then Ev_set_flip_mode
                              else Ev_set_blit_mode))"
    by blast
  with main
  have "pending_flips (log_ev st1 (if True \<and> \<not> has_resized ex_swap_state then Ev_set_flip_mode
                              else Ev_set_blit_mode)) = pending_flips ex_swap_state"
    and "\<forall>q. surface_refs (log_ev st1 (if True \<and> \<not> has_resized ex_swap_state then Ev_set_flip_mode
                              else Ev_set_blit_mode)) q = surface_refs ex_swap_state q"
    and "filter is_flip_or_blit (trace (log_ev st1 (if True \<and> \<not> has_resized ex_swap_state
                              then Ev_set_flip_mode else Ev_set_blit_mode))) =
         filter is_flip_or_blit (trace ex_swap_state)"
    by blast+
  with run show ?thesis by (simp add: ex_swap_live)
qed

subsection \<open>The copy path of a swap\<close>

lemma omap_bo_del_keeps:
  "omap_bo_del st bo r = Inr st' \<Longrightarrow>
   cmds st' = cmds st \<and> drawables st' = drawables st \<and> scanouts st' = scanouts st \<and>
   has_resized st' = has_resized st \<and>
   filter is_page_flip (trace st') = filter is_page_flip (trace st)"
  by (auto simp: omap_bo_del_def log_ev_def Let_def split: option.splits if_splits)

lemma omap_bo_unreference_keeps:
  "omap_bo_unreference st bo r = Inr st' \<Longrightarrow>
   cmds st' = cmds st \<and> drawables st' = drawables st \<and> scanouts st' = scanouts st \<and>
   has_resized st' = has_resized st \<and>
   filter is_page_flip (trace st') = filter is_page_flip (trace st)"
  by (auto simp: omap_bo_unreference_def Let_def split: option.splits if_splits
      dest!: omap_bo_del_keeps)

lemma omap_bo_reference_keeps:
  "omap_bo_reference st bo = Inr st' \<Longrightarrow>
   cmds st' = cmds st \<and> drawables st' = drawables st \<and> scanouts st' = scanouts st \<and>
   has_resized st' = has_resized st \<and>
   trace st' = trace st"
  by (auto simp: omap_bo_reference_def split: option.splits if_splits sum.splits)

lemma swap_rebind_keeps:
  assumes "swap_rebind e st pDraw dst new_canflip = Inr st'"
  shows "cmds st' = cmds st \<and> drawables st' = drawables st \<and> scanouts st' = scanouts st \<and>
   has_resized st' = has_resized st \<and>
     filter is_page_flip (trace st') = filter is_page_flip (trace st)"
  using assms
  by (auto simp: swap_rebind_def Let_def
      split: option.splits sum.splits if_splits
      dest!: omap_bo_reference_keeps omap_bo_unreference_keeps)

lemma swap_complete_cleanup_keeps:
  "swap_complete_cleanup st cmd c = Inr st' \<Longrightarrow>
   scanouts st' = scanouts st \<and> drawables st' = drawables st \<and>
   trace st' = trace st @ [Ev_DestroyPixmap (pSrcPixmap cmd), Ev_DestroyPixmap (pDstPixmap cmd)]"
  by (auto simp: swap_complete_cleanup_def DestroyPixmap_def log_ev_def
      split: option.splits sum.splits)

lemma swap_complete_found_keeps:
  "swap_complete_found e st cmd pDraw = Inr st' \<Longrightarrow>
   filter is_page_flip (trace st') = filter is_page_flip (trace st)"
  by (auto simp: swap_complete_found_def OMAPPixmapExchange_def log_ev_def Let_def
      split: option.splits sum.splits if_splits)

lemma swap_complete_keeps:
  assumes "OMAPDRI2SwapComplete e st c = Inr st'"
  shows "filter is_page_flip (trace st') = filter is_page_flip (trace st)"
  using assms
  by (auto simp: OMAPDRI2SwapComplete_def Let_def
      split: option.splits sum.splits if_splits
      dest!: swap_complete_cleanup_keeps swap_complete_found_keeps)

lemma swap_flip_requests:
  assumes "swap_flip e st c cmd pDraw fb = Inr (r, st')"
  shows "filter is_page_flip (trace st') =
           filter is_page_flip (trace st) @ [Ev_page_flip pDraw fb c]"
  using assms
  by (auto simp: swap_flip_def Let_def log_ev_def split: sum.splits if_splits
      dest!: swap_complete_keeps)

lemma swap_complete_blit_built:
  assumes cmd: "cmds st c = Some cmd"
    and blit: "cmd_type cmd = DRI2_BLIT_COMPLETE"
    and count: "swapCount cmd = 0"
    and ok: "flags cmd = 0"
    and live: "drawables st (draw_id cmd) = Some d"
    and run: "OMAPDRI2SwapComplete e st c = Inr st'"
  shows "scanouts st' = invalidate_scanouts (scanouts st) \<and>
     trace st' = trace st @
       [Ev_DRI2SwapComplete (client cmd) d DRI2_BLIT_COMPLETE (func cmd) (data cmd),
        Ev_DestroyPixmap (pSrcPixmap cmd), Ev_DestroyPixmap (pDstPixmap cmd)]"
proof -
  let ?cmd' = "cmd\<lparr>swapCount := swapCount cmd - 1\<rparr>"
  let ?st1 = "st\<lparr>cmds := (cmds st)(c \<mapsto> ?cmd')\<rparr>"
  let ?st2 = "?st1\<lparr>trace := trace ?st1 @ [Ev_DRI2SwapComplete (client ?cmd') d DRI2_BLIT_COMPLETE
                                     (func ?cmd') (data ?cmd')],
             scanouts := invalidate_scanouts (scanouts ?st1)\<rparr>"
  have "swapCount cmd \<le> 1" and "INT_MIN < swapCount cmd"
    using count by (simp_all add: INT_MIN_def)
  from swap_complete_last [OF cmd this, of e] ok live blit
  have "OMAPDRI2SwapComplete e st c = swap_complete_cleanup ?st2 ?cmd' c"
    by (simp add: swap_complete_found_blit)
  with run have "swap_complete_cleanup ?st2 ?cmd' c = Inr st'" by simp
  from swap_complete_cleanup_keeps [OF this] show ?thesis by simp
qed

lemma swap_blit_invalidates:
  assumes count: "swapCount cmd = 0" and ok: "flags cmd = 0"
    and live: "drawables st (draw_id cmd) = Some d"
    and run: "swap_blit e st c cmd pDraw dst src = Inr (r, st')"
  shows "r \<and> scanouts st' = invalidate_scanouts (scanouts st) \<and>
     Ev_DRI2SwapComplete (client cmd) d DRI2_BLIT_COMPLETE (func cmd) (data cmd) \<in> set (trace st') \<and>
     filter is_page_flip (trace st') = filter is_page_flip (trace st)"
proof -
  let ?st1 = "OMAPDRI2CopyRegion e st pDraw dst src"
  let ?cmd' = "cmd\<lparr>cmd_type := DRI2_BLIT_COMPLETE\<rparr>"
  let ?st2 = "?st1\<lparr>cmds := (cmds ?st1)(c \<mapsto> ?cmd')\<rparr>"
  from run obtain st3 where fin: "OMAPDRI2SwapComplete e ?st2 c = Inr st3"
    and res: "r = True" "st' = st3\<lparr>has_resized := False\<rparr>"
    by (auto simp: swap_blit_def Let_def split: sum.splits)
  have "cmds ?st2 c = Some ?cmd'" and "cmd_type ?cmd' = DRI2_BLIT_COMPLETE"
    and "swapCount ?cmd' = 0" and "flags ?cmd' = 0"
    and "drawables ?st2 (draw_id ?cmd') = Some d"
    using count ok live by (simp_all add: OMAPDRI2CopyRegion_def log_ev_def)
  from swap_complete_blit_built [OF this fin] res
  show ?thesis by (simp add: OMAPDRI2CopyRegion_def log_ev_def)
qed


lemma pixmap_ref_keeps:
  "pixmap_ref st p = Inr st' \<Longrightarrow>
   drawables st' = drawables st \<and> scanouts st' = scanouts st \<and> trace st' = trace st \<and>
   has_resized st' = has_resized st \<and> bufs st' = bufs st"
  by (auto simp: pixmap_ref_def split: option.splits sum.splits)

lemma swap_issue_paths:
  assumes cmd: "cmds st c = Some cmd"
    and run: "swap_issue e st c pDraw pDstBuffer pSrcBuffer new_canflip = Inr (r, st')"
  shows "\<exists>st5. drawables st5 = drawables st \<and> scanouts st5 = scanouts st \<and>
           trace st5 = trace st \<and>
           ((new_canflip \<and> \<not> has_resized st \<and>
               (\<exists>fb. swap_flip e st5 c cmd pDraw fb = Inr (r, st'))) \<or>
            (\<exists>dst src. swap_blit e st5 c cmd pDraw dst src = Inr (r, st')))"
proof -
  note defs = swap_issue_def cmd
  from run obtain st1 where s1: "pixmap_ref st (pSrcPixmap cmd) = Inr st1"
    by (cases "pixmap_ref st (pSrcPixmap cmd)") (simp_all add: defs)
  from run obtain st2 where s2: "pixmap_ref st1 (pDstPixmap cmd) = Inr st2"
    by (cases "pixmap_ref st1 (pDstPixmap cmd)") (simp_all add: defs s1)
  from run obtain n where s3: "c_inc (pending_flips st2) = Inr n"
    by (cases "c_inc (pending_flips st2)") (simp_all add: defs s1 s2)
  define st3 where "st3 = st2\<lparr>pending_flips := n\<rparr>"
  have k3: "drawables st3 = drawables st" "scanouts st3 = scanouts st" "trace st3 = trace st"
    "has_resized st3 = has_resized st"
    using pixmap_ref_keeps [OF s1] pixmap_ref_keeps [OF s2] by (simp_all add: st3_def)
  note pre = defs s1 s2 s3 Let_def st3_def [symmetric]
  from run obtain src where b1: "bufs st3 pSrcBuffer = Some src"
    by (cases "bufs st3 pSrcBuffer") (simp_all add: pre)
  from run obtain dst where b2: "bufs st3 pDstBuffer = Some dst"
    by (cases "bufs st3 pDstBuffer") (simp_all add: pre b1)
  from run obtain src_priv where p1: "pixmaps st3 (pPixmap src) = Some src_priv"
    by (cases "pixmaps st3 (pPixmap src)") (simp_all add: pre b1 b2)
  from run obtain dst_priv where p2: "pixmaps st3 (pPixmap dst) = Some dst_priv"
    by (cases "pixmaps st3 (pPixmap dst)") (simp_all add: pre b1 b2 p1)
  from run obtain src_fb where f1: "omap_bo_get_fb st3 (pix_bo src_priv) = Inr src_fb"
    by (cases "omap_bo_get_fb st3 (pix_bo src_priv)") (simp_all add: pre b1 b2 p1 p2)
  from run obtain dst_fb where f2: "omap_bo_get_fb st3 (pix_bo dst_priv) = Inr dst_fb"
    by (cases "omap_bo_get_fb st3 (pix_bo dst_priv)") (simp_all add: pre b1 b2 p1 p2 f1)
  define bump where "bump =
     (if (previous_canflip src \<noteq> - 1 \<and> previous_canflip src \<noteq> of_bool new_canflip) \<or>
         (previous_canflip dst \<noteq> - 1 \<and> previous_canflip dst \<noteq> of_bool new_canflip) \<or>
         has_resized st3
      then (if draw_type pDraw \<noteq> DRAWABLE_WINDOW then Inl BadPointer
            else (case pixmaps st3 (draw_pixmap pDraw) of
                    None \<Rightarrow> Inl BadPointer
                  | Some pPix \<Rightarrow>
                      Inr (st3\<lparr>pixmaps := (pixmaps st3)(draw_pixmap pDraw \<mapsto>
                             pPix\<lparr>pix_serialNumber := NEXT_SERIAL_NUMBER e\<rparr>)\<rparr>)))
      else Inr st3)"
  note pre2 = pre b1 b2 p1 p2 f1 f2 bump_def [symmetric]
  from run obtain st4 where s4: "bump = Inr st4"
    by (cases bump) (simp_all add: pre2)
  have k4: "drawables st4 = drawables st" "scanouts st4 = scanouts st" "trace st4 = trace st"
    "has_resized st4 = has_resized st"
    using s4 k3 by (auto simp: bump_def split: if_splits option.splits)
  define st5 where "st5 = st4\<lparr>bufs := (bufs st4)(pSrcBuffer \<mapsto> src\<lparr>previous_canflip := of_bool new_canflip\<rparr>,
                                   pDstBuffer \<mapsto> dst\<lparr>previous_canflip := of_bool new_canflip\<rparr>)\<rparr>"
  have k5: "drawables st5 = drawables st" "scanouts st5 = scanouts st" "trace st5 = trace st"
    "has_resized st5 = has_resized st"
    using k4 by (simp_all add: st5_def)
  from run have last: "(if src_fb \<noteq> 0 \<and> dst_fb \<noteq> 0 \<and> new_canflip \<and> \<not> has_resized st5
          then swap_flip e st5 c cmd pDraw src_fb
          else swap_blit e st5 c cmd pDraw (dst\<lparr>previous_canflip := of_bool new_canflip\<rparr>)
                 (src\<lparr>previous_canflip := of_bool new_canflip\<rparr>)) = Inr (r, st')"
    using k4 unfolding st5_def by (simp add: pre2 s4 split del: if_split split_of_bool)
  show ?thesis
  proof (cases "src_fb \<noteq> 0 \<and> dst_fb \<noteq> 0 \<and> new_canflip \<and> \<not> has_resized st5")
    case True
    with last have "swap_flip e st5 c cmd pDraw src_fb = Inr (r, st')" by simp
    with True k5 show ?thesis by blast
  next
    case False
    with last have "swap_blit e st5 c cmd pDraw (dst\<lparr>previous_canflip := of_bool new_canflip\<rparr>)
                 (src\<lparr>previous_canflip := of_bool new_canflip\<rparr>) = Inr (r, st')"
      by simp
    with k5 show ?thesis by blast
  qed
qed

lemma schedule_swap_issue:
  assumes run: "OMAPDRI2ScheduleSwap e st cl pDraw pDstBuffer pSrcBuffer fn dt = Inr (r, st')"
  shows "\<exists>src dst c new_canflip st1.
     bufs st pSrcBuffer = Some src \<and> bufs st pDstBuffer = Some dst \<and> calloc_cmd e = Some c \<and>
     swap_new_canflip e st pDraw src = Inr new_canflip \<and>
     swap_rebind e
       (st\<lparr>cmds := (cmds st)(c \<mapsto>
          \<lparr>cmd_type = DRI2_TYPE_UNSET, client = cl, draw_id = draw_xid pDraw,
           pDstPixmap = draw2pix (dri2draw pDraw dst),
           pSrcPixmap = draw2pix (dri2draw pDraw src),
           func = fn, swapCount = 0, flags = 0,
           cmd_x = draw_x pDraw, cmd_y = draw_y pDraw, data = dt\<rparr>)\<rparr>)
       pDraw dst new_canflip = Inr st1 \<and>
     (if \<not> (if new_canflip \<and> \<not> has_resized st then drmmode_set_flip_mode e
              else drmmode_set_blit_mode e)
      then \<not> r
      else swap_issue e
             (log_ev st1 (if new_canflip \<and> \<not> has_resized st then Ev_set_flip_mode
                          else Ev_set_blit_mode))
             c pDraw pDstBuffer pSrcBuffer new_canflip = Inr (r, st'))"
proof -
  note defs = OMAPDRI2ScheduleSwap_def
  from run obtain src where b1: "bufs st pSrcBuffer = Some src"
    by (cases "bufs st pSrcBuffer") (simp_all add: defs)
  from run obtain dst where b2: "bufs st pDstBuffer = Some dst"
    by (cases "bufs st pDstBuffer") (simp_all add: defs b1)
  from run obtain c where c: "calloc_cmd e = Some c"
    by (cases "calloc_cmd e") (simp_all add: defs b1 b2)
  define st0 where "st0 = st\<lparr>cmds := (cmds st)(c \<mapsto>
          \<lparr>cmd_type = DRI2_TYPE_UNSET, client = cl, draw_id = draw_xid pDraw,
           pDstPixmap = draw2pix (dri2draw pDraw dst),
           pSrcPixmap = draw2pix (dri2draw pDraw src),
           func = fn, swapCount = 0, flags = 0,
           cmd_x = draw_x pDraw, cmd_y = draw_y pDraw, data = dt\<rparr>)\<rparr>"
  note pre = defs b1 b2 c Let_def st0_def [symmetric]
  from run obtain new_canflip where n0: "swap_new_canflip e st0 pDraw src = Inr new_canflip"
    by (cases "swap_new_canflip e st0 pDraw src") (simp_all add: pre)
  then have n: "swap_new_canflip e st pDraw src = Inr new_canflip"
    by (simp add: st0_def swap_new_canflip_cmds)
  from run obtain st1 where r1: "swap_rebind e st0 pDraw dst new_canflip = Inr st1"
    by (cases "swap_rebind e st0 pDraw dst new_canflip") (simp_all add: pre n0)
  have h: "has_resized st0 = has_resized st" by (simp add: st0_def)
  from run have "(if \<not> (if new_canflip \<and> \<not> has_resized st then drmmode_set_flip_mode e
              else drmmode_set_blit_mode e)
      then Inr (False, log_ev st1 (if new_canflip \<and> \<not> has_resized st then Ev_set_flip_mode
                          else Ev_set_blit_mode))
      else swap_issue e
             (log_ev st1 (if new_canflip \<and> \<not> has_resized st then Ev_set_flip_mode
                          else Ev_set_blit_mode))
             c pDraw pDstBuffer pSrcBuffer new_canflip) = Inr (r, st')"
    by (simp add: pre n0 r1 h split del: if_split split_of_bool cong: if_cong)
  then have "(if \<not> (if new_canflip \<and> \<not> has_resized st then drmmode_set_flip_mode e
              else drmmode_set_blit_mode e)
      then \<not> r
      else swap_issue e
             (log_ev st1 (if new_canflip \<and> \<not> has_resized st then Ev_set_flip_mode
                          else Ev_set_blit_mode))
             c pDraw pDstBuffer pSrcBuffer new_canflip = Inr (r, st'))"
    by (cases "\<not> (if new_canflip \<and> \<not> has_resized st then drmmode_set_flip_mode e
              else drmmode_set_blit_mode e)") (simp_all split del: if_split split_of_bool cong: if_cong)
  with b1 b2 c n r1 show ?thesis unfolding st0_def by blast
qed

lemma ex_resized_live:
  "bufs ex_resized_state 20 = Some \<lparr>attachment = 1, pPixmap = 10, previous_canflip = - 1\<rparr>"
  "drawables ex_resized_state (draw_xid ex_draw) = Some ex_draw"
  "has_resized ex_resized_state"
  "trace ex_resized_state = []"
  "scanouts ex_resized_state = [\<lparr>sc_bo = Some 2, sc_valid = True, sc_x = 0, sc_y = 0\<rparr>,
                                \<lparr>sc_bo = Some 1, sc_valid = False, sc_x = 64, sc_y = 0\<rparr>]"
  "drmmode_set_blit_mode ex_env"
  by (simp_all add: ex_resized_state_def ex_swap_state_def ex_draw_def ex_env_def)

text \<open>C4. A command is classified as a blit completion in one place, the copy path of
  \<^verbatim>\<open>OMAPDRI2ScheduleSwap\<close> (line 537), which finalizes it at once (line 538) with the
  countdown and the flags it was built with (both 0) and the id of the drawable of the call.
  A call on a drawable that is in the server's table returns in one of three ways: FALSE at
  the switch of the mode, after the request of a page flip, or TRUE after the copy, with no
  page flip requested. In the last case the finalization has reported the blit completion
  to the client and every slot of the registry is invalid after the call, whatever its flag
  was; the slots keep their number and their buffer objects. That case is the one taken
  whenever a resize is pending or the swap is not eligible for a flip, and the switch to
  blit mode succeeds.\<close>

theorem schedule_swap_blit_invalidates:
  assumes run: "OMAPDRI2ScheduleSwap e st cl pDraw pDstBuffer pSrcBuffer fn dt = Inr (r, st')"
    and live: "drawables st (draw_xid pDraw) = Some d"
  shows "(r \<and> filter is_page_flip (trace st') = filter is_page_flip (trace st) \<longrightarrow>
       scanouts st' = invalidate_scanouts (scanouts st) \<and>
       length (scanouts st') = length (scanouts st) \<and>
       map sc_bo (scanouts st') = map sc_bo (scanouts st) \<and>
       (\<forall>s\<in>set (scanouts st'). \<not> sc_valid s) \<and>
       Ev_DRI2SwapComplete cl d DRI2_BLIT_COMPLETE fn dt \<in> set (trace st')) \<and>
     (\<forall>src new_canflip. bufs st pSrcBuffer = Some src \<longrightarrow>
        swap_new_canflip e st pDraw src = Inr new_canflip \<longrightarrow>
        has_resized st \<or> \<not> new_canflip \<longrightarrow> drmmode_set_blit_mode e \<longrightarrow>
        r \<and> filter is_page_flip (trace st') = filter is_page_flip (trace st))"
proof -
  from schedule_swap_issue [OF run] obtain src dst c new_canflip st1 where
    src: "bufs st pSrcBuffer = Some src" and
    elig: "swap_new_canflip e st pDraw src = Inr new_canflip" and
    rebind: "swap_rebind e
       (st\<lparr>cmds := (cmds st)(c \<mapsto>
          \<lparr>cmd_type = DRI2_TYPE_UNSET, client = cl, draw_id = draw_xid pDraw,
           pDstPixmap = draw2pix (dri2draw pDraw dst),
           pSrcPixmap = draw2pix (dri2draw pDraw src),
           func = fn, swapCount = 0, flags = 0,
           cmd_x = draw_x pDraw, cmd_y = draw_y pDraw, data = dt\<rparr>)\<rparr>)
       pDraw dst new_canflip = Inr st1" and
    issue: "if \<not> (if new_canflip \<and> \<not> has_resized st then drmmode_set_flip_mode e
              else drmmode_set_blit_mode e)
      then \<not> r
      else swap_issue e
             (log_ev st1 (if new_canflip \<and> \<not> has_resized st then Ev_set_flip_mode
                          else Ev_set_blit_mode))
             c pDraw pDstBuffer pSrcBuffer new_canflip = Inr (r, st')"
    by blast
  let ?cmd = "\<lparr>cmd_type = DRI2_TYPE_UNSET, client = cl, draw_id = draw_xid pDraw,
           pDstPixmap = draw2pix (dri2draw pDraw dst),
           pSrcPixmap = draw2pix (dri2draw pDraw src),
           func = fn, swapCount = 0, flags = 0,
           cmd_x = draw_x pDraw, cmd_y = draw_y pDraw, data = dt\<rparr>"
  let ?st2 = "log_ev st1 (if new_canflip \<and> \<not> has_resized st then Ev_set_flip_mode
                          else Ev_set_blit_mode)"
  from swap_rebind_keeps [OF rebind]
  have k2: "cmds ?st2 c = Some ?cmd" "drawables ?st2 = drawables st"
    "scanouts ?st2 = scanouts st"
    "filter is_page_flip (trace ?st2) = filter is_page_flip (trace st)"
    "has_resized ?st2 = has_resized st"
    by (simp_all add: log_ev_def)
  have blit: "scanouts st' = invalidate_scanouts (scanouts st) \<and>
       Ev_DRI2SwapComplete cl d DRI2_BLIT_COMPLETE fn dt \<in> set (trace st') \<and>
       r \<and> filter is_page_flip (trace st') = filter is_page_flip (trace st)"
    if path: "swap_blit e st5 c ?cmd pDraw dst' src' = Inr (r, st')"
      and k5: "drawables st5 = drawables ?st2" "scanouts st5 = scanouts ?st2"
        "trace st5 = trace ?st2"
    for st5 dst' src'
  proof -
    have "swapCount ?cmd = 0" and "flags ?cmd = 0"
      and "drawables st5 (draw_id ?cmd) = Some d"
      using live k5 k2 by simp_all
    from swap_blit_invalidates [OF this path] k5 k2 show ?thesis by simp
  qed
  have inv: "length (invalidate_scanouts (scanouts st)) = length (scanouts st) \<and>
       map sc_bo (invalidate_scanouts (scanouts st)) = map sc_bo (scanouts st) \<and>
       (\<forall>s\<in>set (invalidate_scanouts (scanouts st)). \<not> sc_valid s)"
    by (rule invalidate_scanouts_all)
  have copied: "scanouts st' = invalidate_scanouts (scanouts st) \<and>
       length (scanouts st') = length (scanouts st) \<and>
       map sc_bo (scanouts st') = map sc_bo (scanouts st) \<and>
       (\<forall>s\<in>set (scanouts st'). \<not> sc_valid s) \<and>
       Ev_DRI2SwapComplete cl d DRI2_BLIT_COMPLETE fn dt \<in> set (trace st')"
    if ret: "r \<and> filter is_page_flip (trace st') = filter is_page_flip (trace st)"
  proof -
    from ret issue
    have run2: "swap_issue e ?st2 c pDraw pDstBuffer pSrcBuffer new_canflip = Inr (r, st')"
      by (cases "if new_canflip \<and> \<not> has_resized st then drmmode_set_flip_mode e
                 else drmmode_set_blit_mode e")
        (simp_all split del: if_split split_of_bool cong: if_cong)
    from swap_issue_paths [OF k2(1) run2] obtain st5 where
      k5: "drawables st5 = drawables ?st2" "scanouts st5 = scanouts ?st2" "trace st5 = trace ?st2"
      and paths: "(new_canflip \<and> \<not> has_resized ?st2 \<and>
               (\<exists>fb. swap_flip e st5 c ?cmd pDraw fb = Inr (r, st'))) \<or>
            (\<exists>dst src. swap_blit e st5 c ?cmd pDraw dst src = Inr (r, st'))"
      by blast
    have "\<not> (\<exists>fb. swap_flip e st5 c ?cmd pDraw fb = Inr (r, st'))"
    proof
      assume "\<exists>fb. swap_flip e st5 c ?cmd pDraw fb = Inr (r, st')"
      then obtain fb where "swap_flip e st5 c ?cmd pDraw fb = Inr (r, st')" by blast
      from swap_flip_requests [OF this] k5 k2 ret show False by simp
    qed
    with paths obtain dst' src' where "swap_blit e st5 c ?cmd pDraw dst' src' = Inr (r, st')"
      by blast
    from blit [OF this k5] inv show ?thesis by simp
  qed
  have forced_blit: "r \<and> filter is_page_flip (trace st') = filter is_page_flip (trace st)"
    if "bufs st pSrcBuffer = Some src2" and "swap_new_canflip e st pDraw src2 = Inr nc2"
      and forced: "has_resized st \<or> \<not> nc2" and mode: "drmmode_set_blit_mode e"
    for src2 nc2
  proof -
    from that src elig have same: "nc2 = new_canflip" by simp
    with forced have nf: "\<not> (new_canflip \<and> \<not> has_resized st)" by blast
    from issue
    have run2: "swap_issue e ?st2 c pDraw pDstBuffer pSrcBuffer new_canflip = Inr (r, st')"
      unfolding if_not_P [OF nf] using mode by simp
    from swap_issue_paths [OF k2(1) run2] obtain st5 where
      k5: "drawables st5 = drawables ?st2" "scanouts st5 = scanouts ?st2" "trace st5 = trace ?st2"
      and paths: "(new_canflip \<and> \<not> has_resized ?st2 \<and>
               (\<exists>fb. swap_flip e st5 c ?cmd pDraw fb = Inr (r, st'))) \<or>
            (\<exists>dst src. swap_blit e st5 c ?cmd pDraw dst src = Inr (r, st'))"
      by blast
    have "\<not> (new_canflip \<and> \<not> has_resized ?st2)" using nf k2(5) by blast
    with paths obtain dst' src' where "swap_blit e st5 c ?cmd pDraw dst' src' = Inr (r, st')"
      by blast
    from blit [OF this k5] show ?thesis by simp
  qed
  from copied forced_blit show ?thesis by blast
qed

theorem schedule_swap_blit_invalidates_witness:
  "\<exists>st'. OMAPDRI2ScheduleSwap ex_env ex_resized_state 1 ex_draw 21 20 0 0 = Inr (True, st') \<and>
     map sc_valid (scanouts ex_resized_state) = [True, False] \<and>
     map sc_valid (scanouts st') = [False, False] \<and>
     map sc_bo (scanouts st') = [Some 2, Some 1] \<and>
     Ev_DRI2SwapComplete 1 ex_draw DRI2_BLIT_COMPLETE 0 0 \<in> set (trace st') \<and>
     filter is_page_flip (trace st') = []"
proof -
  let ?src = "\<lparr>attachment = 1, pPixmap = 10, previous_canflip = - 1\<rparr>"
  have "\<exists>r st'. OMAPDRI2ScheduleSwap ex_env ex_resized_state 1 ex_draw 21 20 0 0 = Inr (r, st')"
    by (auto simp add: OMAPDRI2ScheduleSwap_def swap_new_canflip_def swap_rebind_def swap_issue_def
      swap_blit_def OMAPDRI2CopyRegion_def pixmap_ref_def omap_bo_get_fb_def omap_bo_fb_def
      deref_bo_def canflip_def omap_bo_width_def omap_bo_height_def
      omap_bo_reference_def omap_bo_unreference_def c_inc_def INT_MAX_def
      OMAPDRI2SwapComplete_def swap_complete_found_def swap_complete_cleanup_def
      DestroyPixmap_def c_dec_def INT_MIN_def log_ev_def Let_def
      OMAP_SWAP_FAIL_def OMAP_SWAP_FAKE_FLIP_def dri2draw_def draw2pix_def DRI2BufferFrontLeft_def
      ex_env_def ex_resized_state_def ex_swap_state_def ex_draw_def ex_bo_def)
  then obtain r st' where
    run: "OMAPDRI2ScheduleSwap ex_env ex_resized_state 1 ex_draw 21 20 0 0 = Inr (r, st')"
    by blast
  have eligible: "swap_new_canflip ex_env ex_resized_state ex_draw ?src = Inr True"
    by (simp add: swap_new_canflip_def deref_bo_def canflip_def omap_bo_width_def
        omap_bo_height_def ex_env_def ex_resized_state_def ex_swap_state_def ex_draw_def
        ex_bo_def)
  note main = schedule_swap_blit_invalidates [OF run ex_resized_live(2)]
  from main ex_resized_live(1) eligible ex_resized_live(3) ex_resized_live(6)
  have ret: "r \<and> filter is_page_flip (trace st') = filter is_page_flip (trace ex_resized_state)"
    by blast
  with main
  have "scanouts st' = invalidate_scanouts (scanouts ex_resized_state)"
    and "Ev_DRI2SwapComplete 1 ex_draw DRI2_BLIT_COMPLETE 0 0 \<in> set (trace st')"
    by blast+
  with ret run show ?thesis
    by (simp add: ex_resized_live)
qed

end
